theory Spec2Isabelle
  imports Complex_Main
begin

section \<open>Errors, arrays and the numeric backend\<close>

text \<open>
  The Python of \<^verbatim>\<open>geomstats/geometry/riemannian_metric.py\<close> raises exceptions and
  works on numpy arrays of floating-point numbers. Exceptions are values of a sum type;
  floats are idealised as \<^typ>\<open>real\<close>; an array of rank one is a list, of rank two a
  list of rows, of rank three a list of matrices.
\<close>

datatype error =
    NotImplementedError string
  | ValueError string
  | IndexError string
  | AssertionError string
  | TypeError string
  | ZeroDivisionError string

type_synonym 'a result = "error + 'a"

definition bind_result :: "'a result \<Rightarrow> ('a \<Rightarrow> 'b result) \<Rightarrow> 'b result" where
  "bind_result r f = (case r of Inl e \<Rightarrow> Inl e | Inr v \<Rightarrow> f v)"

type_synonym vec = "real list"
type_synonym matrix = "real list list"
type_synonym tensor3 = "real list list list"

text \<open>
  The docstrings give every argument the shape \<^verbatim>\<open>[..., dim]\<close>: an array either has no
  batch axis (\<open>Single\<close>) or one leading batch axis (\<open>Batch\<close>).
\<close>

datatype 'a batched = Single 'a | Batch "'a list"

definition is_batch :: "'a batched \<Rightarrow> bool" where
  "is_batch a = (case a of Single _ \<Rightarrow> False | Batch _ \<Rightarrow> True)"

text \<open>
  numpy broadcasts two axes when their lengths agree or one of them is one; the common
  axis has the length of the other, and the axis of length one is read at index \<open>0\<close>
  whatever the index (\<open>stretch\<close>).
\<close>

definition compatible :: "nat \<Rightarrow> nat \<Rightarrow> bool" where
  "compatible m n \<longleftrightarrow> m = n \<or> m = 1 \<or> n = 1"

definition broadcast_len :: "nat \<Rightarrow> nat \<Rightarrow> nat" where
  "broadcast_len m n = (if m = 1 then n else m)"

definition stretch :: "'a list \<Rightarrow> nat \<Rightarrow> 'a" where
  "stretch xs i = (if length xs = 1 then xs ! 0 else xs ! i)"

text \<open>
  The ellipsis of an einsum subscript (and numpy arithmetic) broadcasts the batch axes of
  its operands: an operand without batch axis, or with a batch axis of length one, is
  repeated along the other's batch; two batch axes of different lengths, neither of them
  one, make the backend raise.
\<close>

fun broadcast_batch :: "'a batched \<Rightarrow> 'b batched \<Rightarrow> ('a \<times> 'b) batched result" where
  "broadcast_batch (Single a) (Single b) = Inr (Single (a, b))"
| "broadcast_batch (Single a) (Batch bs) = Inr (Batch (map (\<lambda>b. (a, b)) bs))"
| "broadcast_batch (Batch as) (Single b) = Inr (Batch (map (\<lambda>a. (a, b)) as))"
| "broadcast_batch (Batch as) (Batch bs) =
     (if length as = length bs then Inr (Batch (zip as bs))
      else if length as = 1 then Inr (Batch (map (\<lambda>b. (hd as, b)) bs))
      else if length bs = 1 then Inr (Batch (map (\<lambda>a. (a, hd bs)) as))
      else Inl (ValueError ''operands could not be broadcast together''))"

fun all_batched :: "('a \<Rightarrow> bool) \<Rightarrow> 'a batched \<Rightarrow> bool" where
  "all_batched P (Single a) = P a"
| "all_batched P (Batch as) = list_all P as"

text \<open>
  \<^verbatim>\<open>gs.einsum('...<a>,...<b>-><c>', A, B)\<close>: broadcast the batch axes, check that the
  labelled axes of each pair of operands can be broadcast (\<open>ok\<close>), contract each pair
  (\<open>core\<close>). An axis that carries the same label in both operands is broadcast like any
  other: its lengths agree, or the one of length one is stretched.
\<close>

definition einsum :: "('a \<Rightarrow> 'b \<Rightarrow> bool) \<Rightarrow> ('a \<Rightarrow> 'b \<Rightarrow> 'c) \<Rightarrow>
    'a batched \<Rightarrow> 'b batched \<Rightarrow> 'c batched result" where
  "einsum ok core A B =
     bind_result (broadcast_batch A B) (\<lambda>ps.
       if all_batched (\<lambda>(a, b). ok a b) ps
       then Inr (map_batched (\<lambda>(a, b). core a b) ps)
       else Inl (ValueError ''einsum: operands could not be broadcast together''))"

definition is_matrix :: "nat \<Rightarrow> nat \<Rightarrow> matrix \<Rightarrow> bool" where
  "is_matrix r c M \<longleftrightarrow> length M = r \<and> list_all (\<lambda>row. length row = c) M"

definition is_tensor3 :: "nat \<Rightarrow> nat \<Rightarrow> nat \<Rightarrow> tensor3 \<Rightarrow> bool" where
  "is_tensor3 a b c T \<longleftrightarrow> length T = a \<and> list_all (is_matrix b c) T"

definition ncols :: "matrix \<Rightarrow> nat" where
  "ncols M = (case M of [] \<Rightarrow> 0 | row # _ \<Rightarrow> length row)"

text \<open>
  \<^verbatim>\<open>'j,jk->k'\<close>: \<open>out[k] = sum_j a[j] * M[j][k]\<close>, the axis \<open>j\<close> of \<open>a\<close> broadcast against
  the rows of \<open>M\<close>.
\<close>

definition ok_j_jk :: "vec \<Rightarrow> matrix \<Rightarrow> bool" where
  "ok_j_jk a M \<longleftrightarrow> is_matrix (length M) (ncols M) M \<and> compatible (length a) (length M)"

definition core_j_jk_k :: "vec \<Rightarrow> matrix \<Rightarrow> vec" where
  "core_j_jk_k a M =
     map (\<lambda>k. sum_list (map (\<lambda>j. stretch a j * stretch M j ! k)
                          [0..<broadcast_len (length a) (length M)]))
       [0..<ncols M]"

text \<open>\<^verbatim>\<open>'k,k->'\<close>: \<open>out = sum_k a[k] * b[k]\<close>.\<close>

definition ok_k_k :: "vec \<Rightarrow> vec \<Rightarrow> bool" where
  "ok_k_k a b \<longleftrightarrow> compatible (length a) (length b)"

definition core_k_k :: "vec \<Rightarrow> vec \<Rightarrow> real" where
  "core_k_k a b =
     sum_list (map (\<lambda>k. stretch a k * stretch b k) [0..<broadcast_len (length a) (length b)])"

text \<open>
  Modelled from the spec: \<^verbatim>\<open>gs.to_ndarray(x, to_ndim, axis)\<close> belongs to the numeric
  backend, which is not among the sources. Its arguments name the rank the result is to
  have and the position of the axis to add: an array whose rank is one short of
  \<^verbatim>\<open>to_ndim\<close> gets a new axis of length one at position \<^verbatim>\<open>axis\<close>, any other array is
  returned as it is.
\<close>

definition to_ndarray_lead :: "'a batched \<Rightarrow> 'a batched" where
  \<comment> \<open>\<^verbatim>\<open>to_ndim\<close> is the rank of a batched value, \<^verbatim>\<open>axis=0\<close>\<close>
  "to_ndarray_lead x = (case x of Single a \<Rightarrow> Batch [a] | Batch as \<Rightarrow> Batch as)"

definition to_ndarray_2_axis1 :: "real batched \<Rightarrow> real list batched" where
  \<comment> \<open>\<^verbatim>\<open>to_ndim=2, axis=1\<close>, on the rank-one array left by \<^verbatim>\<open>to_ndim=1\<close>\<close>
  "to_ndarray_2_axis1 x = Batch (map (\<lambda>v. [v]) (case x of Single a \<Rightarrow> [a] | Batch as \<Rightarrow> as))"

text \<open>
  Modelled from the spec: the decorator \<^verbatim>\<open>geomstats.vectorization.decorator\<close> is not among
  the sources. It wraps an operation so that the declared per-argument roles
  (\<^verbatim>\<open>'else'\<close> pass-through, \<^verbatim>\<open>'vector'\<close> broadcast-batchable) normalize batching before
  execution: an unbatched \<^verbatim>\<open>'vector'\<close> argument gets a batch axis of length one
  (\<open>vectorize_vector\<close>). After execution it gives the result the shape that the docstring
  of the operation declares, \<^verbatim>\<open>shape=[...,]\<close> for \<^verbatim>\<open>inner_product\<close>, and that the callers
  in the source rely on (\<^verbatim>\<open>orthonormal_basis\<close> contracts the norms by \<^verbatim>\<open>'i, ikl->ikl'\<close>):
  the axis of length one that the body appends to its scalar results is dropped, and so
  is the batch axis when it has length one and no \<^verbatim>\<open>'vector'\<close> argument came with a batch
  axis (\<open>adapt_result\<close>, each row of the result of the body holding one number).
\<close>

definition vectorize_vector :: "vec batched \<Rightarrow> vec batched" where
  "vectorize_vector v = (case v of Single a \<Rightarrow> Batch [a] | Batch as \<Rightarrow> Batch as)"

definition adapt_result :: "bool \<Rightarrow> real list batched \<Rightarrow> real batched" where
  "adapt_result no_batched_argument result =
     (let squeezed = (case result of Single row \<Rightarrow> row | Batch rows \<Rightarrow> concat rows)
      in if no_batched_argument \<and> length squeezed = 1 then Single (squeezed ! 0)
         else Batch squeezed)"

section \<open>The Riemannian metric\<close>

text \<open>
  An instance of \<^verbatim>\<open>RiemannianMetric\<close>: its constructor arguments and the methods a
  concrete metric overrides or inherits from \<^verbatim>\<open>Connection\<close> (the logarithm map, called
  as \<^verbatim>\<open>self.log(point=..., base_point=...)\<close>; the field takes the point first).
\<close>

record metric =
  dim_m :: nat
  signature :: "(nat \<times> nat) option"
  default_point_type :: string
  metric_matrix :: "vec batched option \<Rightarrow> matrix batched result"
  log_m :: "vec batched \<Rightarrow> vec batched \<Rightarrow> vec batched result"


text \<open>
  \<^verbatim>\<open>inner_product\<close>: the body of the method, and the method as decorated with the roles
  \<^verbatim>\<open>['else', 'vector', 'vector', 'vector']\<close> of \<open>self\<close>, the two tangent vectors and the
  base point (an omitted base point is \<open>None\<close> and has no batch axis).
\<close>

definition inner_product_body ::
    "'a metric_scheme \<Rightarrow> vec batched \<Rightarrow> vec batched \<Rightarrow> vec batched option \<Rightarrow>
     real list batched result" where
  "inner_product_body self tangent_vec_a tangent_vec_b base_point =
     bind_result (metric_matrix self base_point) (\<lambda>inner_prod_mat.
     let inner_prod_mat = to_ndarray_lead inner_prod_mat in
     bind_result (einsum ok_j_jk core_j_jk_k tangent_vec_a inner_prod_mat) (\<lambda>aux.
     bind_result (einsum ok_k_k core_k_k aux tangent_vec_b) (\<lambda>inner_prod.
     let inner_prod = to_ndarray_lead inner_prod;
         inner_prod = to_ndarray_2_axis1 inner_prod
     in Inr inner_prod)))"

definition no_batched_vector :: "vec batched \<Rightarrow> vec batched \<Rightarrow> vec batched option \<Rightarrow> bool" where
  "no_batched_vector tangent_vec_a tangent_vec_b base_point \<longleftrightarrow>
     \<not> is_batch tangent_vec_a \<and> \<not> is_batch tangent_vec_b \<and>
     (case base_point of None \<Rightarrow> True | Some p \<Rightarrow> \<not> is_batch p)"

definition inner_product ::
    "'a metric_scheme \<Rightarrow> vec batched \<Rightarrow> vec batched \<Rightarrow> vec batched option \<Rightarrow>
     real batched result" where
  "inner_product self tangent_vec_a tangent_vec_b base_point =
     bind_result
       (inner_product_body self (vectorize_vector tangent_vec_a)
          (vectorize_vector tangent_vec_b) (map_option vectorize_vector base_point))
       (\<lambda>result.
          Inr (adapt_result (no_batched_vector tangent_vec_a tangent_vec_b base_point) result))"

definition squared_norm ::
    "'a metric_scheme \<Rightarrow> vec batched \<Rightarrow> vec batched option \<Rightarrow> real batched result" where
  "squared_norm self vector base_point = inner_product self vector vector base_point"

text \<open>
  A float that a square root produced: \<^verbatim>\<open>gs.sqrt\<close> of a negative number is \<^verbatim>\<open>nan\<close>, which
  nothing catches and which \<^verbatim>\<open>gs.maximum\<close> and \<^verbatim>\<open>gs.amax\<close> propagate.
\<close>

datatype fvalue = Finite real | NaN

definition sqrt_f :: "real \<Rightarrow> fvalue" where
  "sqrt_f x = (if x < 0 then NaN else Finite (sqrt x))"

definition gs_sqrt :: "real batched \<Rightarrow> fvalue batched" where
  "gs_sqrt x = map_batched sqrt_f x"

fun gs_maximum :: "fvalue \<Rightarrow> fvalue \<Rightarrow> fvalue" where
  "gs_maximum (Finite x) (Finite y) = Finite (max x y)"
| "gs_maximum NaN y = NaN"
| "gs_maximum (Finite x) NaN = NaN"


definition squared_dist ::
    "'a metric_scheme \<Rightarrow> vec batched \<Rightarrow> vec batched \<Rightarrow> real batched result" where
  "squared_dist self point_a point_b =
     bind_result (log_m self point_b point_a) (\<lambda>lg.
       squared_norm self lg (Some point_a))"

definition dist_m ::
    "'a metric_scheme \<Rightarrow> vec batched \<Rightarrow> vec batched \<Rightarrow> fvalue batched result" where
  "dist_m self point_a point_b =
     bind_result (squared_dist self point_a point_b) (\<lambda>sq_dist. Inr (gs_sqrt sq_dist))"

text \<open>All the entries of an array of numbers, in storage order.\<close>

definition entries :: "'a batched \<Rightarrow> 'a list" where
  "entries x = (case x of Single v \<Rightarrow> [v] | Batch vs \<Rightarrow> vs)"

definition amax :: "fvalue batched \<Rightarrow> fvalue result" where
  "amax x = (case entries x of
       [] \<Rightarrow> Inl (ValueError ''zero-size array to reduction operation maximum'')
     | v # vs \<Rightarrow> Inr (fold gs_maximum vs v))"

text \<open>
  \<^verbatim>\<open>diameter\<close>: the loop \<^verbatim>\<open>for i in range(n_points - 1)\<close> threads the running maximum;
  \<open>points\<close> is an array of rank two, a list of points.
\<close>

fun diameter_loop ::
    "'a metric_scheme \<Rightarrow> vec list \<Rightarrow> nat list \<Rightarrow> fvalue \<Rightarrow> fvalue result" where
  "diameter_loop self points [] diameter = Inr diameter"
| "diameter_loop self points (i # rest) diameter =
     bind_result (dist_m self (Single (points ! i)) (Batch (drop (i + 1) points)))
       (\<lambda>dist_to_neighbors.
     bind_result (amax dist_to_neighbors) (\<lambda>dist_to_farthest_neighbor.
       diameter_loop self points rest (gs_maximum diameter dist_to_farthest_neighbor)))"

definition diameter :: "'a metric_scheme \<Rightarrow> vec list \<Rightarrow> fvalue result" where
  "diameter self points =
     (let n_points = length points
      in diameter_loop self points [0..<n_points - 1] (Finite 0))"

text \<open>
  \<^verbatim>\<open>dist_pairwise\<close>: the two nested loops append \<^verbatim>\<open>self.dist(x, y)\<close> for every
  \<open>x = point[i]\<close> and every \<open>y\<close> of \<^verbatim>\<open>point[i:]\<close>, in this order.
\<close>

fun dist_row :: "'a metric_scheme \<Rightarrow> vec \<Rightarrow> vec list \<Rightarrow> fvalue batched list result" where
  "dist_row self x [] = Inr []"
| "dist_row self x (y # ys) =
     bind_result (dist_m self (Single x) (Single y)) (\<lambda>d.
     bind_result (dist_row self x ys) (\<lambda>ds. Inr (d # ds)))"

fun pairwise_loop :: "'a metric_scheme \<Rightarrow> vec list \<Rightarrow> fvalue batched list result" where
  "pairwise_loop self [] = Inr []"
| "pairwise_loop self (x # rest) =
     bind_result (dist_row self x (x # rest)) (\<lambda>row.
     bind_result (pairwise_loop self rest) (\<lambda>others. Inr (row @ others)))"

text \<open>
  \<^verbatim>\<open>gs.array\<close> of the collected distances: numbers make an array of rank one; arrays of
  one common length make an array of rank two, one row per distance; anything else is
  not an array.
\<close>

definition gs_array :: "'a batched list \<Rightarrow> 'a list batched result" where
  "gs_array xs =
     (if list_all (\<lambda>x. \<not> is_batch x) xs then Inr (Single (concat (map entries xs)))
      else if list_all is_batch xs \<and>
              list_all (\<lambda>x. length (entries x) = length (entries (hd xs))) xs
      then Inr (Batch (map entries xs))
      else Inl (ValueError ''setting an array element with a sequence''))"

text \<open>
  Modelled from the spec: \<^verbatim>\<open>SymmetricMatrices.from_vector\<close> is not among the sources. It
  reconstructs a symmetric \<open>n \<times> n\<close> matrix from a flat sequence of length \<open>n(n+1)/2\<close>, the
  upper-triangular values in row order, mirrored below the diagonal, and does so for
  each row of an array of rank two. A sequence whose length is not a triangular number
  is refused.
\<close>

definition mat_dim :: "nat \<Rightarrow> nat option" where
  "mat_dim len = find (\<lambda>n. n * (n + 1) div 2 = len) [0..<len + 1]"

fun triu_offset :: "nat \<Rightarrow> nat \<Rightarrow> nat" where
  "triu_offset n 0 = 0"
| "triu_offset n (Suc i) = triu_offset n i + (n - i)"

definition triu_index :: "nat \<Rightarrow> nat \<Rightarrow> nat \<Rightarrow> nat" where
  "triu_index n i j = triu_offset n (min i j) + (max i j - min i j)"

definition symmetric_of :: "nat \<Rightarrow> 'a list \<Rightarrow> 'a list list" where
  "symmetric_of n vec = map (\<lambda>i. map (\<lambda>j. vec ! triu_index n i j) [0..<n]) [0..<n]"

definition from_vector :: "'a list batched \<Rightarrow> 'a list list batched result" where
  "from_vector vec =
     (case vec of
        Single v \<Rightarrow>
          (case mat_dim (length v) of
             None \<Rightarrow> Inl (ValueError ''Invalid input dimension'')
           | Some n \<Rightarrow> Inr (Single (symmetric_of n v)))
      | Batch vs \<Rightarrow>
          (case mat_dim (case vs of [] \<Rightarrow> 0 | v # _ \<Rightarrow> length v) of
             None \<Rightarrow> Inl (ValueError ''Invalid input dimension'')
           | Some n \<Rightarrow> Inr (Batch (map (symmetric_of n) vs))))"

definition dist_pairwise :: "'a metric_scheme \<Rightarrow> vec list \<Rightarrow> fvalue list list batched result" where
  "dist_pairwise self point =
     bind_result (pairwise_loop self point) (\<lambda>pairwise_dist.
     bind_result (gs_array pairwise_dist) (\<lambda>pairwise_dist.
       from_vector pairwise_dist))"

section \<open>Loss and gradient\<close>


text \<open>
  \<^verbatim>\<open>'i,ij->i'\<close>: \<open>out[i] = sum_j v[i] * N[i][j]\<close>, the axis \<open>i\<close> of \<open>v\<close> broadcast against the
  rows of \<open>N\<close>.
\<close>

definition ok_i_ij :: "vec \<Rightarrow> matrix \<Rightarrow> bool" where
  "ok_i_ij v N \<longleftrightarrow> is_matrix (length N) (ncols N) N \<and> compatible (length v) (length N)"

definition core_i_ij_i :: "vec \<Rightarrow> matrix \<Rightarrow> vec" where
  "core_i_ij_i v N =
     map (\<lambda>i. sum_list (map (\<lambda>j. stretch v i * stretch N i ! j) [0..<ncols N]))
       [0..<broadcast_len (length v) (length N)]"

definition transpose_m :: "matrix \<Rightarrow> matrix" where
  "transpose_m M = map (\<lambda>j. map (\<lambda>i. M ! i ! j) [0..<length M]) [0..<ncols M]"

text \<open>
  \<^verbatim>\<open>gs.transpose(a, axes)\<close>: the permutation has to have as many axes as the array; of
  the permutations of the source, \<open>(1, 0)\<close> transposes a matrix and \<open>(0, 2, 1)\<close> transposes
  each matrix of a batch.
\<close>

definition gs_transpose :: "matrix batched \<Rightarrow> nat list \<Rightarrow> matrix batched result" where
  "gs_transpose a axes =
     (case a of
        Single M \<Rightarrow>
          if axes = [1, 0] then Inr (Single (transpose_m M))
          else Inl (ValueError ''axes don't match array'')
      | Batch Ms \<Rightarrow>
          if axes = [0, 2, 1] then Inr (Batch (map transpose_m Ms))
          else Inl (ValueError ''axes don't match array''))"

definition grad :: "vec batched \<Rightarrow> vec batched \<Rightarrow> 'a metric_scheme \<Rightarrow> vec batched result" where
  "grad y_pred y_true metric =
     bind_result (log_m metric y_true y_pred) (\<lambda>tangent_vec.
     let grad_vec = map_batched (map (\<lambda>x. - 2 * x)) tangent_vec in
     bind_result (metric_matrix metric (Some y_pred)) (\<lambda>inner_prod_mat.
     let is_vectorized = is_batch inner_prod_mat;
         axes = (if is_vectorized then [0, 2, 1] else [1, 0]) in
     bind_result (gs_transpose inner_prod_mat axes) (\<lambda>transposed.
       einsum ok_i_ij core_i_ij_i grad_vec transposed)))"

section \<open>What the backend supplies\<close>

text \<open>
  Values as Python passes them around where the source does not fix their kind: an array
  of numbers, an array of vectors, or a tuple.
\<close>

datatype pyval = Scalars "real batched" | Vectors "vec batched" | Tuple "pyval list"

text \<open>
  What the numeric backend and the automatic differentiation supply; the source calls
  them and does not define them.
  \<^item> \<open>linalg_inv\<close>: \<^verbatim>\<open>gs.linalg.inv\<close>.
  \<^item> \<open>jacobian\<close>: \<^verbatim>\<open>autograd.jacobian(f)(x)\<close>, for \<open>f\<close> the metric matrix: a tensor
    \<open>[..., dim, dim, dim]\<close>.
  \<^item> \<open>grad_engine\<close>: the gradient of a scalar function of a paired state, with the
    structure of the state.
\<close>

record backend =
  linalg_inv :: "matrix batched \<Rightarrow> matrix batched result"
  jacobian :: "(vec batched option \<Rightarrow> matrix batched result) \<Rightarrow> vec batched option \<Rightarrow>
               tensor3 batched result"
  grad_engine :: "(vec batched \<times> vec batched \<Rightarrow> real batched result) \<Rightarrow>
                  vec batched \<times> vec batched \<Rightarrow> (vec batched \<times> vec batched) result"

section \<open>Integration\<close>

text \<open>
  Python arithmetic on the values a vector field returns. \<^verbatim>\<open>x * dt\<close> scales an array
  elementwise and raises a \<^verbatim>\<open>TypeError\<close> on a tuple (a sequence is only repeated, by an
  integer). \<^verbatim>\<open>point + x\<close> adds to an array of vectors an array of vectors, a number or an
  array of rank one, broadcasting; a tuple never reaches an addition, the multiplication
  before it raises. Unpacking into two takes the two elements of a tuple, or of the first
  axis of an array.
\<close>

definition py_scale :: "pyval \<Rightarrow> real \<Rightarrow> pyval result" where
  "py_scale x dt =
     (case x of
        Scalars s \<Rightarrow> Inr (Scalars (map_batched (\<lambda>v. v * dt) s))
      | Vectors v \<Rightarrow> Inr (Vectors (map_batched (map (\<lambda>c. c * dt)) v))
      | Tuple _ \<Rightarrow> Inl (TypeError ''can't multiply sequence by non-int of type float''))"

definition vector_sum :: "vec batched \<Rightarrow> vec batched \<Rightarrow> vec batched result" where
  "vector_sum x y =
     einsum (\<lambda>a b. compatible (length a) (length b))
       (\<lambda>a b. map (\<lambda>i. stretch a i + stretch b i) [0..<broadcast_len (length a) (length b)])
       x y"

definition array_add :: "vec batched \<Rightarrow> pyval \<Rightarrow> vec batched result" where
  "array_add x y =
     (case y of
        Vectors v \<Rightarrow> vector_sum x v
      | Scalars (Single c) \<Rightarrow> Inr (map_batched (map (\<lambda>a. a + c)) x)
      | Scalars (Batch cs) \<Rightarrow> vector_sum x (Single cs)
      | Tuple _ \<Rightarrow> Inl (TypeError ''unsupported operand type(s) for +''))"

definition unpack_pair :: "pyval \<Rightarrow> (pyval \<times> pyval) result" where
  "unpack_pair x =
     (case x of
        Tuple [a, b] \<Rightarrow> Inr (a, b)
      | Vectors (Batch [a, b]) \<Rightarrow> Inr (Vectors (Single a), Vectors (Single b))
      | Vectors (Single [a, b]) \<Rightarrow> Inr (Scalars (Single a), Scalars (Single b))
      | Scalars (Batch [a, b]) \<Rightarrow> Inr (Scalars (Single a), Scalars (Single b))
      | Scalars (Single _) \<Rightarrow> Inl (TypeError ''cannot unpack non-iterable object'')
      | _ \<Rightarrow> Inl (ValueError ''wrong number of values to unpack (expected 2)''))"

text \<open>
  Modelled from the spec: the integrator \<^verbatim>\<open>geomstats.integrator.integrate\<close> is not among
  the sources. Given a vector-field function, an initial state, a step count and a named
  scheme (\<^verbatim>\<open>'euler'\<close>, explicit first-order; \<^verbatim>\<open>'rk4'\<close>, fourth-order Runge-Kutta) it
  returns the full discretized trajectory: the initial state followed by the state after
  each of \<open>n_steps\<close> fixed steps of length \<open>1 / n_steps\<close>, as the list of the positions and
  the list of the momenta. A step unpacks what the vector field returns at a state into
  the velocity of the position and that of the momentum, and adds each, times the step
  length, to its component (\<open>advance\<close>); the explicit Euler scheme does this once, the
  Runge-Kutta scheme evaluates the field at the four classical stages and advances by
  their weighted mean. Another scheme name is refused.
\<close>

type_synonym hstate = "vec batched \<times> vec batched"

definition advance :: "hstate \<Rightarrow> pyval \<Rightarrow> real \<Rightarrow> hstate result" where
  "advance state derivative h =
     (case state of (point, vector) \<Rightarrow>
        bind_result (unpack_pair derivative) (\<lambda>(velocity, acceleration).
        bind_result (py_scale velocity h) (\<lambda>point_increment.
        bind_result (array_add point point_increment) (\<lambda>point_new.
        bind_result (py_scale acceleration h) (\<lambda>vector_increment.
        bind_result (array_add vector vector_increment) (\<lambda>vector_new.
          Inr (point_new, vector_new)))))))"

definition euler_step ::
    "(vec batched \<Rightarrow> vec batched \<Rightarrow> pyval result) \<Rightarrow> hstate \<Rightarrow> real \<Rightarrow> hstate result" where
  "euler_step force state dt =
     (case state of (point, vector) \<Rightarrow>
        bind_result (force point vector) (\<lambda>derivative. advance state derivative dt))"

definition rk4_step ::
    "(vec batched \<Rightarrow> vec batched \<Rightarrow> pyval result) \<Rightarrow> hstate \<Rightarrow> real \<Rightarrow> hstate result" where
  "rk4_step force state dt =
     bind_result (force (fst state) (snd state)) (\<lambda>k1.
     bind_result (advance state k1 (dt / 2)) (\<lambda>state_2.
     bind_result (force (fst state_2) (snd state_2)) (\<lambda>k2.
     bind_result (advance state k2 (dt / 2)) (\<lambda>state_3.
     bind_result (force (fst state_3) (snd state_3)) (\<lambda>k3.
     bind_result (advance state k3 dt) (\<lambda>state_4.
     bind_result (force (fst state_4) (snd state_4)) (\<lambda>k4.
     bind_result (advance state k1 (dt / 6)) (\<lambda>after_1.
     bind_result (advance after_1 k2 (dt / 3)) (\<lambda>after_2.
     bind_result (advance after_2 k3 (dt / 3)) (\<lambda>after_3.
       advance after_3 k4 (dt / 6)))))))))))"

fun trajectory :: "(hstate \<Rightarrow> hstate result) \<Rightarrow> nat \<Rightarrow> hstate \<Rightarrow> hstate list result" where
  "trajectory stp 0 s = Inr [s]"
| "trajectory stp (Suc n) s =
     bind_result (stp s) (\<lambda>s'.
     bind_result (trajectory stp n s') (\<lambda>rest. Inr (s # rest)))"

definition integrate ::
    "(vec batched \<Rightarrow> vec batched \<Rightarrow> pyval result) \<Rightarrow> hstate \<Rightarrow> nat \<Rightarrow> string \<Rightarrow>
     (vec batched list \<times> vec batched list) result" where
  "integrate function initial_state n_steps step =
     (if step \<noteq> ''euler'' \<and> step \<noteq> ''rk4''
      then Inl (ValueError ''step needs to be one of euler, rk4'')
      else if n_steps = 0 then Inl (ZeroDivisionError ''float division by zero'')
      else
        let dt = 1 / real n_steps;
            step_function = (if step = ''euler'' then euler_step else rk4_step) in
        bind_result (trajectory (\<lambda>state. step_function function state dt) n_steps initial_state)
          (\<lambda>states. Inr (map fst states, map snd states)))"

section \<open>Christoffel symbols\<close>

definition inner_product_inverse_matrix ::
    "backend \<Rightarrow> 'a metric_scheme \<Rightarrow> vec batched option \<Rightarrow> matrix batched result" where
  "inner_product_inverse_matrix gs self base_point =
     bind_result (metric_matrix self base_point) (\<lambda>metric_matrix.
       linalg_inv gs metric_matrix)"

definition inner_product_derivative_matrix ::
    "backend \<Rightarrow> 'a metric_scheme \<Rightarrow> vec batched option \<Rightarrow> tensor3 batched result" where
  "inner_product_derivative_matrix gs self base_point =
     jacobian gs (metric_matrix self) base_point"

definition dim1 :: "tensor3 \<Rightarrow> nat" where
  "dim1 T = (case T of [] \<Rightarrow> 0 | M # _ \<Rightarrow> length M)"

definition dim2 :: "tensor3 \<Rightarrow> nat" where
  "dim2 T = (case T of [] \<Rightarrow> 0 | M # _ \<Rightarrow> ncols M)"

text \<open>
  \<^verbatim>\<open>'im,mkl->ikl'\<close>: \<open>out[i][k][l] = sum_m C[i][m] * D[m][k][l]\<close>, the columns of \<open>C\<close>
  broadcast against the first axis of \<open>D\<close>.
\<close>

definition ok_im_mkl :: "matrix \<Rightarrow> tensor3 \<Rightarrow> bool" where
  "ok_im_mkl C D \<longleftrightarrow>
     is_matrix (length C) (ncols C) C \<and> is_tensor3 (length D) (dim1 D) (dim2 D) D \<and>
     compatible (ncols C) (length D)"

definition core_im_mkl_ikl :: "matrix \<Rightarrow> tensor3 \<Rightarrow> tensor3" where
  "core_im_mkl_ikl C D =
     map (\<lambda>i. map (\<lambda>k. map (\<lambda>l.
         sum_list (map (\<lambda>m. stretch (C ! i) m * stretch D m ! k ! l)
                     [0..<broadcast_len (ncols C) (length D)]))
       [0..<dim2 D]) [0..<dim1 D]) [0..<length C]"

text \<open>\<^verbatim>\<open>'im,mlk->ilk'\<close>: \<open>out[i][l][k] = sum_m C[i][m] * D[m][l][k]\<close>.\<close>

definition ok_im_mlk :: "matrix \<Rightarrow> tensor3 \<Rightarrow> bool" where
  "ok_im_mlk C D \<longleftrightarrow>
     is_matrix (length C) (ncols C) C \<and> is_tensor3 (length D) (dim1 D) (dim2 D) D \<and>
     compatible (ncols C) (length D)"

definition core_im_mlk_ilk :: "matrix \<Rightarrow> tensor3 \<Rightarrow> tensor3" where
  "core_im_mlk_ilk C D =
     map (\<lambda>i. map (\<lambda>l. map (\<lambda>k.
         sum_list (map (\<lambda>m. stretch (C ! i) m * stretch D m ! l ! k)
                     [0..<broadcast_len (ncols C) (length D)]))
       [0..<dim2 D]) [0..<dim1 D]) [0..<length C]"

text \<open>
  \<^verbatim>\<open>'im,klm->ikl'\<close>: \<open>out[i][k][l] = sum_m C[i][m] * D[k][l][m]\<close>, the columns of \<open>C\<close>
  broadcast against the last axis of \<open>D\<close>.
\<close>

definition ok_im_klm :: "matrix \<Rightarrow> tensor3 \<Rightarrow> bool" where
  "ok_im_klm C D \<longleftrightarrow>
     is_matrix (length C) (ncols C) C \<and> is_tensor3 (length D) (dim1 D) (dim2 D) D \<and>
     compatible (ncols C) (dim2 D)"

definition core_im_klm_ikl :: "matrix \<Rightarrow> tensor3 \<Rightarrow> tensor3" where
  "core_im_klm_ikl C D =
     map (\<lambda>i. map (\<lambda>k. map (\<lambda>l.
         sum_list (map (\<lambda>m. stretch (C ! i) m * stretch (D ! k ! l) m)
                     [0..<broadcast_len (ncols C) (dim2 D)]))
       [0..<dim1 D]) [0..<length D]) [0..<length C]"

text \<open>
  Arithmetic on arrays of rank three: negation and scaling are elementwise; addition
  broadcasts the batch axes and each of the three axes of its operands.
\<close>

definition neg3 :: "tensor3 \<Rightarrow> tensor3" where
  "neg3 T = map (map (map uminus)) T"

definition scale3 :: "real \<Rightarrow> tensor3 \<Rightarrow> tensor3" where
  "scale3 c T = map (map (map (\<lambda>x. c * x))) T"

definition same_shape3 :: "tensor3 \<Rightarrow> tensor3 \<Rightarrow> bool" where
  "same_shape3 S T \<longleftrightarrow>
     is_tensor3 (length S) (dim1 S) (dim2 S) S \<and> is_tensor3 (length T) (dim1 T) (dim2 T) T \<and>
     compatible (length S) (length T) \<and> compatible (dim1 S) (dim1 T) \<and>
     compatible (dim2 S) (dim2 T)"

definition add3 :: "tensor3 \<Rightarrow> tensor3 \<Rightarrow> tensor3" where
  "add3 S T =
     map (\<lambda>i. map (\<lambda>k. map (\<lambda>l.
         stretch (stretch (stretch S i) k) l + stretch (stretch (stretch T i) k) l)
       [0..<broadcast_len (dim2 S) (dim2 T)]) [0..<broadcast_len (dim1 S) (dim1 T)])
       [0..<broadcast_len (length S) (length T)]"

definition gs_add :: "tensor3 batched \<Rightarrow> tensor3 batched \<Rightarrow> tensor3 batched result" where
  "gs_add S T = einsum same_shape3 add3 S T"

definition christoffels ::
    "backend \<Rightarrow> 'a metric_scheme \<Rightarrow> vec batched \<Rightarrow> tensor3 batched result" where
  "christoffels gs self base_point =
     bind_result (inner_product_inverse_matrix gs self (Some base_point))
       (\<lambda>cometric_mat_at_point.
     bind_result (inner_product_derivative_matrix gs self (Some base_point))
       (\<lambda>metric_derivative_at_point.
     bind_result (einsum ok_im_mkl core_im_mkl_ikl
        cometric_mat_at_point metric_derivative_at_point) (\<lambda>term_1.
     bind_result (einsum ok_im_mlk core_im_mlk_ilk
        cometric_mat_at_point metric_derivative_at_point) (\<lambda>term_2.
     bind_result (einsum ok_im_klm core_im_klm_ikl
        cometric_mat_at_point metric_derivative_at_point) (\<lambda>contraction_3.
     let term_3 = map_batched neg3 contraction_3 in
     bind_result (gs_add term_1 term_2) (\<lambda>sum_12.
     bind_result (gs_add sum_12 term_3) (\<lambda>sum_123.
       Inr (map_batched (scale3 (1 / 2)) sum_123))))))))"

section \<open>The Riemannian cometric\<close>

text \<open>
  \<^verbatim>\<open>RiemannianCometric\<close> extends \<^verbatim>\<open>RiemannianMetric\<close> by the cometric matrix, which a
  concrete cometric overrides, and overrides \<^verbatim>\<open>metric_matrix\<close> by the inverse of the
  cometric matrix of the same object.
\<close>

record cometric = metric +
  cometric_matrix :: "vec batched option \<Rightarrow> matrix batched result"

definition RiemannianCometric_over ::
    "backend \<Rightarrow> nat \<Rightarrow> (nat \<times> nat) option \<Rightarrow> string \<Rightarrow>
     (vec batched \<Rightarrow> vec batched \<Rightarrow> vec batched result) \<Rightarrow>
     (vec batched option \<Rightarrow> matrix batched result) \<Rightarrow> cometric" where
  "RiemannianCometric_over gs d sig pt lg cm =
     \<lparr> dim_m = d, signature = sig, default_point_type = pt,
       metric_matrix = (\<lambda>base_point.
          bind_result (cm base_point) (\<lambda>cometric_matrix. linalg_inv gs cometric_matrix)),
       log_m = lg,
       cometric_matrix = cm \<rparr>"


text \<open>
  \<^verbatim>\<open>'ij,j->i'\<close>: \<open>out[i] = sum_j K[i][j] * c[j]\<close>, the columns of \<open>K\<close> broadcast against
  \<open>c\<close>.
\<close>

definition ok_ij_j :: "matrix \<Rightarrow> vec \<Rightarrow> bool" where
  "ok_ij_j K c \<longleftrightarrow> is_matrix (length K) (ncols K) K \<and> compatible (ncols K) (length c)"

definition core_ij_j_i :: "matrix \<Rightarrow> vec \<Rightarrow> vec" where
  "core_ij_j_i K c =
     map (\<lambda>i. sum_list (map (\<lambda>j. stretch (K ! i) j * stretch c j)
                          [0..<broadcast_len (ncols K) (length c)]))
       [0..<length K]"

definition inner_coproduct ::
    "'a cometric_scheme \<Rightarrow> vec batched \<Rightarrow> vec batched \<Rightarrow> vec batched \<Rightarrow> real batched result" where
  "inner_coproduct self covector_1 covector_2 base_point =
     bind_result (cometric_matrix self (Some base_point)) (\<lambda>K.
     bind_result (einsum ok_ij_j core_ij_j_i K covector_2) (\<lambda>vector_2.
       einsum ok_k_k core_k_k covector_1 vector_2))"

definition hamiltonian ::
    "'a cometric_scheme \<Rightarrow> vec batched \<times> vec batched \<Rightarrow> real batched result" where
  "hamiltonian self state =
     (case state of (position, momentum) \<Rightarrow>
        bind_result (inner_coproduct self momentum momentum position) (\<lambda>v.
          Inr (map_batched (\<lambda>x. 1 / 2 * x) v)))"

text \<open>
  Modelled from the spec: \<^verbatim>\<open>gs.autograd.value_and_grad\<close> belongs to the numeric backend,
  which is not among the sources. It is the value-and-gradient of a scalar function over
  a paired-tuple argument: applied to the function and then to the state, it returns the
  pair of the value of the function and of its gradient, the gradient being a pair like
  the state.
\<close>

definition value_and_grad ::
    "backend \<Rightarrow> (vec batched \<times> vec batched \<Rightarrow> real batched result) \<Rightarrow>
     vec batched \<times> vec batched \<Rightarrow> (real batched \<times> (vec batched \<times> vec batched)) result" where
  "value_and_grad gs f state =
     bind_result (f state) (\<lambda>v.
     bind_result (grad_engine gs f state) (\<lambda>g. Inr (v, g)))"

text \<open>
  \<^verbatim>\<open>Hamiltonian_equation\<close> unpacks that pair into \<^verbatim>\<open>H_q, H_p\<close> and returns the tuple
  \<^verbatim>\<open>(H_p, - H_q)\<close>.
\<close>

definition Hamiltonian_equation ::
    "backend \<Rightarrow> 'a cometric_scheme \<Rightarrow> vec batched \<Rightarrow> vec batched \<Rightarrow> pyval result" where
  "Hamiltonian_equation gs self position momentum =
     (let state = (position, momentum) in
      bind_result (value_and_grad gs (hamiltonian self) state) (\<lambda>(H_q, H_p).
        Inr (Tuple [Tuple [Vectors (fst H_p), Vectors (snd H_p)],
                    Scalars (map_batched uminus H_q)])))"

definition N_STEPS :: nat where
  "N_STEPS = 10"

text \<open>
  \<^verbatim>\<open>exp\<close>: an omitted optional argument is \<open>None\<close> and takes the default of the
  signature; \<^verbatim>\<open>point_type\<close> is not used. \<^verbatim>\<open>flow[-1]\<close> raises on an empty trajectory.
\<close>

definition exp_m ::
    "backend \<Rightarrow> 'a cometric_scheme \<Rightarrow> vec batched \<Rightarrow> vec batched \<Rightarrow>
     nat option \<Rightarrow> string option \<Rightarrow> string option \<Rightarrow> vec batched result" where
  "exp_m gs self cotangent_vec base_point n_steps step point_type =
     (let n_steps = (case n_steps of None \<Rightarrow> N_STEPS | Some n \<Rightarrow> n);
          step = (case step of None \<Rightarrow> ''euler'' | Some s \<Rightarrow> s);
          initial_state = (base_point, cotangent_vec) in
      bind_result (integrate (Hamiltonian_equation gs self) initial_state n_steps step)
        (\<lambda>(flow, velocities).
           case flow of
             [] \<Rightarrow> Inl (IndexError ''list index out of range'')
           | _ # _ \<Rightarrow> Inr (last flow)))"

section \<open>The manifold test case\<close>

text \<open>
  \<^verbatim>\<open>ManifoldTestCase\<close> of \<^verbatim>\<open>geomstats/test/geometry/base.py\<close>. An array is its shape and its
  entries in storage order; the space under test is the fixture \<^verbatim>\<open>self.space\<close>, of which
  the checks use the declared point shape and the membership predicate (a boolean, or
  one boolean per point of a batch).
\<close>

record ndarray =
  shape :: "nat list"
  entries_of :: "real list"

definition gs_ones :: "nat list \<Rightarrow> ndarray" where
  "gs_ones shp = \<lparr> shape = shp, entries_of = replicate (prod_list shp) 1 \<rparr>"

definition gs_zeros_bool :: "nat \<Rightarrow> bool list" where
  "gs_zeros_bool n = replicate n False"

record space =
  space_shape :: "nat list"
  belongs :: "ndarray \<Rightarrow> bool batched"

text \<open>
  Modelled from the spec: \<^verbatim>\<open>TestCase.assertAllEqual\<close> is not among the sources. It is the
  exact array-equality assertion: a single boolean is compared with every expected
  value; an array has to have the shape of the expected one, whatever the lengths, and
  to agree with it everywhere.
\<close>

definition assertAllEqual :: "bool batched \<Rightarrow> bool list \<Rightarrow> unit result" where
  "assertAllEqual a b =
     (case a of
        Single x \<Rightarrow>
          if list_all (\<lambda>y. x = y) b then Inr ()
          else Inl (AssertionError ''Arrays are not equal'')
      | Batch xs \<Rightarrow>
          if length xs \<noteq> length b then Inl (AssertionError ''Arrays are not equal (shapes mismatch)'')
          else if xs = b then Inr ()
          else Inl (AssertionError ''Arrays are not equal''))"

definition test_belongs :: "space \<Rightarrow> ndarray \<Rightarrow> bool list \<Rightarrow> real \<Rightarrow> unit result" where
  "test_belongs self point expected atol =
     (let res = belongs self point in assertAllEqual res expected)"

text \<open>
  \<^verbatim>\<open>test_not_belongs\<close>: \<open>not_belongs_point\<close> is the array the check builds
  (\<^verbatim>\<open>shape[0] += 1\<close> raises on an empty shape), \<open>test_not_belongs\<close> the whole check.
\<close>

definition not_belongs_point :: "space \<Rightarrow> nat \<Rightarrow> ndarray result" where
  "not_belongs_point self n_points =
     (case space_shape self of
        [] \<Rightarrow> Inl (IndexError ''list index out of range'')
      | first # rest \<Rightarrow>
          let shape = (first + 1) # rest;
              n_batch = (if n_points \<noteq> 0 then [n_points] else [])
          in Inr (gs_ones (n_batch @ shape)))"

definition test_not_belongs :: "space \<Rightarrow> nat \<Rightarrow> real \<Rightarrow> unit result" where
  "test_not_belongs self n_points atol =
     bind_result (not_belongs_point self n_points) (\<lambda>point.
       let expected = gs_zeros_bool n_points in
       test_belongs self point expected atol)"

section \<open>Vocabulary of the statements\<close>

text \<open>
  What broadcasting produces, written by index: \<open>pick A i\<close> is the element of \<open>A\<close> used
  at batch position \<open>i\<close> (an unbatched operand, or a batch of length one, is repeated), and
  \<open>bmap2 f A B\<close> the array of the \<open>f (pick A i) (pick B i)\<close>, which has a batch axis as soon
  as one operand has.
\<close>

fun pick :: "'a batched \<Rightarrow> nat \<Rightarrow> 'a" where
  "pick (Single a) i = a"
| "pick (Batch as) i = (if length as = 1 then as ! 0 else as ! i)"

declare pick.simps(2) [simp del]

fun batch_len :: "'a batched \<Rightarrow> nat" where
  "batch_len (Single a) = 1"
| "batch_len (Batch as) = length as"

definition bmap2 :: "('a \<Rightarrow> 'b \<Rightarrow> 'c) \<Rightarrow> 'a batched \<Rightarrow> 'b batched \<Rightarrow> 'c batched" where
  "bmap2 f A B =
     (if is_batch A \<or> is_batch B
      then Batch (map (\<lambda>i. f (pick A i) (pick B i)) [0..<broadcast_len (batch_len A) (batch_len B)])
      else Single (f (pick A 0) (pick B 0)))"



text \<open>
  The numbers \<^verbatim>\<open>inner_product\<close> computes on operands \<open>a\<close>, \<open>b\<close> and metric matrix \<open>M\<close>, one
  per batch position: the contraction \<^verbatim>\<open>'j,jk->k'\<close> of \<open>a\<close> and \<open>M\<close>, contracted by
  \<^verbatim>\<open>'k,k->'\<close> with \<open>b\<close>.
\<close>

definition inner_product_values :: "vec batched \<Rightarrow> matrix batched \<Rightarrow> vec batched \<Rightarrow> real list" where
  "inner_product_values a M b =
     map (\<lambda>i. core_k_k (core_j_jk_k (pick a i) (pick M i)) (pick b i))
       [0..<broadcast_len (broadcast_len (batch_len a) (batch_len M)) (batch_len b)]"

text \<open>
  Two arrays of vectors have the same shape; and the array \<^verbatim>\<open>grad\<close> returns on the
  tangent vector \<open>tangent_vec\<close> and the metric matrix \<open>M\<close>.
\<close>

definition same_shape :: "vec batched \<Rightarrow> vec batched \<Rightarrow> bool" where
  "same_shape x y =
     (case (x, y) of
        (Single a, Single b) \<Rightarrow> length a = length b
      | (Batch as, Batch bs) \<Rightarrow> map length as = map length bs
      | _ \<Rightarrow> False)"

definition grad_rows :: "vec batched \<Rightarrow> matrix batched \<Rightarrow> vec batched" where
  "grad_rows tangent_vec M =
     bmap2 (\<lambda>v N. core_i_ij_i (map (\<lambda>x. - 2 * x) v) (transpose_m N)) tangent_vec M"

text \<open>
  The array of rank three with entries \<open>g i k l\<close>, and the array \<^verbatim>\<open>christoffels\<close> computes
  from a cometric matrix \<open>C\<close> and a derivative tensor \<open>D\<close>: half the sum of the three
  terms.
\<close>

definition tabulate3 :: "nat \<Rightarrow> (nat \<Rightarrow> nat \<Rightarrow> nat \<Rightarrow> real) \<Rightarrow> tensor3" where
  "tabulate3 d g = map (\<lambda>i. map (\<lambda>k. map (\<lambda>l. g i k l) [0..<d]) [0..<d]) [0..<d]"

definition christoffels_value :: "matrix \<Rightarrow> tensor3 \<Rightarrow> tensor3" where
  "christoffels_value C D =
     scale3 (1 / 2)
       (add3 (add3 (core_im_mkl_ikl C D) (core_im_mlk_ilk C D)) (neg3 (core_im_klm_ikl C D)))"

text \<open>The rows of the upper triangle of an \<open>n \<times> n\<close> matrix: row \<open>i\<close> holds columns \<open>i..n-1\<close>.\<close>

definition upper_rows :: "(nat \<Rightarrow> nat \<Rightarrow> 'a) \<Rightarrow> nat \<Rightarrow> 'a list list" where
  "upper_rows d n = map (\<lambda>i. map (\<lambda>j. d i j) [i..<n]) [0..<n]"

text \<open>The full matrix whose upper triangle is \<open>d\<close>, mirrored below the diagonal.\<close>

definition mirrored :: "(nat \<Rightarrow> nat \<Rightarrow> 'a) \<Rightarrow> nat \<Rightarrow> 'a list list" where
  "mirrored d n = map (\<lambda>i. map (\<lambda>j. d (min i j) (max i j)) [0..<n]) [0..<n]"

section \<open>Concrete instances\<close>

text \<open>
  Instances used to run the operations on concrete inputs: the Euclidean metric of
  dimension \<open>d\<close> (identity metric matrix, logarithm \<open>point - base_point\<close>); a metric on
  the line whose matrix \<open>[[1 + 3 x\<^sup>2]]\<close> depends on the base point \<open>x\<close>, with the same
  logarithm; and the bilinear form of the plane with the matrix \<open>[[1, 2], [0, 1]]\<close>, which
  is not symmetric and so tells a contraction over the rows of the matrix from one over
  its columns.
\<close>

definition identity_matrix :: "nat \<Rightarrow> matrix" where
  "identity_matrix d = map (\<lambda>i. map (\<lambda>j. if i = j then 1 else 0) [0..<d]) [0..<d]"

definition vector_difference :: "vec batched \<Rightarrow> vec batched \<Rightarrow> vec batched result" where
  "vector_difference point base_point =
     einsum (\<lambda>a b. compatible (length a) (length b))
       (\<lambda>a b. map (\<lambda>i. stretch a i - stretch b i) [0..<broadcast_len (length a) (length b)])
       point base_point"

definition euclidean_metric :: "nat \<Rightarrow> metric" where
  "euclidean_metric d =
     \<lparr> dim_m = d, signature = Some (d, 0), default_point_type = ''vector'',
       metric_matrix = (\<lambda>base_point. Inr (Single (identity_matrix d))),
       log_m = vector_difference \<rparr>"

definition warped_line :: metric where
  "warped_line =
     \<lparr> dim_m = 1, signature = Some (1, 0), default_point_type = ''vector'',
       metric_matrix = (\<lambda>base_point. case base_point of
           None \<Rightarrow> Inr (Single [[1]])
         | Some x \<Rightarrow> Inr (map_batched (\<lambda>p. [[1 + 3 * (p ! 0) * (p ! 0)]]) x)),
       log_m = vector_difference \<rparr>"

definition sheared_plane :: metric where
  "sheared_plane =
     \<lparr> dim_m = 2, signature = Some (2, 0), default_point_type = ''vector'',
       metric_matrix = (\<lambda>base_point. Inr (Single [[1, 2], [0, 1]])),
       log_m = vector_difference \<rparr>"

text \<open>
  A backend that differentiates by symmetric difference quotients of step one, which are
  the exact partial derivatives of a polynomial of degree two such as the Hamiltonian of
  a constant cometric or the metric matrix \<open>[[1 + 3 x\<^sup>2]]\<close>, and that inverts the matrices
  of dimension one; and the cometric of the line with cometric matrix \<open>[[1]]\<close>, whose
  Hamiltonian is \<open>H(q, p) = p\<^sup>2 / 2\<close>.
\<close>

definition shift :: "vec \<Rightarrow> nat \<Rightarrow> real \<Rightarrow> vec" where
  "shift x k h = x[k := x ! k + h]"

definition central_partial :: "(vec \<Rightarrow> real batched result) \<Rightarrow> vec \<Rightarrow> nat \<Rightarrow> real result" where
  "central_partial f x k =
     bind_result (f (shift x k 1)) (\<lambda>up.
     bind_result (f (shift x k (- 1))) (\<lambda>down.
       case (up, down) of
         (Single u, Single v) \<Rightarrow> Inr ((u - v) / 2)
       | _ \<Rightarrow> Inl (ValueError ''the function is not scalar'')))"

fun collect :: "'a result list \<Rightarrow> 'a list result" where
  "collect [] = Inr []"
| "collect (r # rs) = bind_result r (\<lambda>v. bind_result (collect rs) (\<lambda>vs. Inr (v # vs)))"

definition central_gradient :: "(vec \<Rightarrow> real batched result) \<Rightarrow> vec \<Rightarrow> vec result" where
  "central_gradient f x = collect (map (central_partial f x) [0..<length x])"

definition central_difference_engine ::
    "(vec batched \<times> vec batched \<Rightarrow> real batched result) \<Rightarrow>
     vec batched \<times> vec batched \<Rightarrow> (vec batched \<times> vec batched) result" where
  "central_difference_engine f state =
     (case state of
        (Single q, Single p) \<Rightarrow>
          bind_result (central_gradient (\<lambda>q'. f (Single q', Single p)) q) (\<lambda>dq.
          bind_result (central_gradient (\<lambda>p'. f (Single q, Single p')) p) (\<lambda>dp.
            Inr (Single dq, Single dp)))
      | _ \<Rightarrow> Inl (NotImplementedError ''gradient at a batch of states''))"

definition inv_1x1 :: "matrix \<Rightarrow> matrix result" where
  "inv_1x1 M =
     (case M of
        [[x]] \<Rightarrow> if x = 0 then Inl (ValueError ''Singular matrix'') else Inr [[1 / x]]
      | _ \<Rightarrow> Inl (NotImplementedError ''inverse of a matrix of dimension above one''))"

definition linalg_inv_line :: "matrix batched \<Rightarrow> matrix batched result" where
  "linalg_inv_line M =
     (case M of
        Single m \<Rightarrow> bind_result (inv_1x1 m) (\<lambda>r. Inr (Single r))
      | Batch ms \<Rightarrow> bind_result (collect (map inv_1x1 ms)) (\<lambda>rs. Inr (Batch rs)))"

definition central_jacobian ::
    "(vec batched option \<Rightarrow> matrix batched result) \<Rightarrow> vec batched option \<Rightarrow>
     tensor3 batched result" where
  "central_jacobian f base_point =
     (case base_point of
        Some (Single x) \<Rightarrow>
          bind_result (collect (map (\<lambda>c.
              bind_result (f (Some (Single (shift x c 1)))) (\<lambda>up.
              bind_result (f (Some (Single (shift x c (- 1))))) (\<lambda>down.
                case (up, down) of
                  (Single U, Single V) \<Rightarrow> Inr (U, V)
                | _ \<Rightarrow> Inl (ValueError ''the function is batched''))))
            [0..<length x])) (\<lambda>sides.
          Inr (Single (map (\<lambda>a. map (\<lambda>b. map (\<lambda>(U, V). (U ! a ! b - V ! a ! b) / 2) sides)
                 [0..<length x]) [0..<length x])))
      | _ \<Rightarrow> Inl (NotImplementedError ''jacobian at a batch of points''))"

definition differentiating_backend :: backend where
  "differentiating_backend =
     \<lparr> linalg_inv = linalg_inv_line,
       jacobian = central_jacobian,
       grad_engine = central_difference_engine \<rparr>"

definition unit_cometric :: cometric where
  "unit_cometric =
     RiemannianCometric_over differentiating_backend 1 None ''vector'' vector_difference
       (\<lambda>base_point. Inr (Single [[1]]))"

text \<open>A space of vectors of dimension three: a point belongs when its shape is \<open>[3]\<close>.\<close>

definition vectors_of_dim_3 :: space where
  "vectors_of_dim_3 =
     \<lparr> space_shape = [3],
       belongs = (\<lambda>point.
         if length (shape point) = 1 then Single (shape point = [3])
         else Batch (replicate (hd (shape point)) (tl (shape point) = [3]))) \<rparr>"

section \<open>Theorems\<close>

subsection \<open>Broadcasting\<close>

lemma stretch_nth: "i < length xs \<Longrightarrow> stretch xs i = xs ! i"
  by (auto simp: stretch_def)

lemma broadcast_len_same: "broadcast_len n n = n"
  by (simp add: broadcast_len_def)

lemma compatible_same: "compatible n n"
  by (simp add: compatible_def)

lemma pick_Batch_nth: "i < length as \<Longrightarrow> pick (Batch as) i = as ! i"
  by (cases "length as = 1") (auto simp: pick.simps(2))

lemma pick_Batch_one: "length as = 1 \<Longrightarrow> pick (Batch as) i = hd as"
  by (cases as) (auto simp: pick.simps(2))

lemma broadcast_batch_total:
  assumes "compatible (batch_len A) (batch_len B)"
  shows "broadcast_batch A B = Inr (bmap2 Pair A B)"
proof (cases A)
  case (Single a)
  show ?thesis
  proof (cases B)
    case (Single b)
    then show ?thesis using \<open>A = Single a\<close> by (simp add: bmap2_def is_batch_def)
  next
    case (Batch bs)
    have "map (Pair a) bs = map (\<lambda>i. (a, pick (Batch bs) i)) [0..<length bs]"
      by (rule nth_equalityI) (simp_all add: pick_Batch_nth)
    then show ?thesis using \<open>A = Single a\<close> Batch
      by (simp add: bmap2_def is_batch_def broadcast_len_def)
  qed
next
  case (Batch as)
  show ?thesis
  proof (cases B)
    case (Single b)
    have "map (\<lambda>a. (a, b)) as = map (\<lambda>i. (pick (Batch as) i, b)) [0..<length as]"
      by (rule nth_equalityI) (simp_all add: pick_Batch_nth)
    then show ?thesis using \<open>A = Batch as\<close> Single
      by (simp add: bmap2_def is_batch_def broadcast_len_def)
  next
    case B: (Batch bs)
    consider (eq) "length as = length bs"
      | (l1) "length as \<noteq> length bs" "length as = 1"
      | (r1) "length as \<noteq> length bs" "length as \<noteq> 1" "length bs = 1"
      using assms Batch B unfolding compatible_def by fastforce
    then show ?thesis
    proof cases
      case eq
      have "zip as bs = map (\<lambda>i. (pick (Batch as) i, pick (Batch bs) i))
                 [0..<broadcast_len (length as) (length bs)]"
        using eq by (intro nth_equalityI) (simp_all add: broadcast_len_def pick_Batch_nth)
      then show ?thesis using eq Batch B by (simp add: bmap2_def is_batch_def)
    next
      case l1
      have "map (\<lambda>b. (hd as, b)) bs = map (\<lambda>i. (pick (Batch as) i, pick (Batch bs) i))
                 [0..<broadcast_len (length as) (length bs)]"
        using l1 by (intro nth_equalityI)
          (simp_all add: broadcast_len_def pick_Batch_nth pick_Batch_one)
      then show ?thesis using l1 Batch B by (simp add: bmap2_def is_batch_def)
    next
      case r1
      have "map (\<lambda>a. (a, hd bs)) as = map (\<lambda>i. (pick (Batch as) i, pick (Batch bs) i))
                 [0..<broadcast_len (length as) (length bs)]"
        using r1 by (intro nth_equalityI)
          (simp_all add: broadcast_len_def pick_Batch_nth pick_Batch_one)
      then show ?thesis using r1 Batch B by (simp add: bmap2_def is_batch_def)
    qed
  qed
qed

lemma all_batched_bmap2:
  "all_batched P (bmap2 f A B) \<longleftrightarrow>
     (\<forall>i < broadcast_len (batch_len A) (batch_len B). P (f (pick A i) (pick B i)))"
proof (cases "is_batch A \<or> is_batch B")
  case True
  then show ?thesis by (auto simp: bmap2_def list_all_iff)
next
  case False
  then obtain a b where "A = Single a" "B = Single b"
    by (cases A; cases B) (auto simp: is_batch_def)
  then show ?thesis by (simp add: bmap2_def is_batch_def broadcast_len_def)
qed

lemma map_batched_bmap2: "map_batched g (bmap2 f A B) = bmap2 (\<lambda>a b. g (f a b)) A B"
  by (simp add: bmap2_def comp_def)

lemma einsum_total:
  assumes "compatible (batch_len A) (batch_len B)"
    and "\<And>i. i < broadcast_len (batch_len A) (batch_len B) \<Longrightarrow> ok (pick A i) (pick B i)"
  shows "einsum ok core A B = Inr (bmap2 core A B)"
  using assms(2)
  by (simp add: einsum_def bind_result_def broadcast_batch_total[OF assms(1)]
        all_batched_bmap2 map_batched_bmap2)

lemma broadcast_batch_compatible:
  "broadcast_batch A B = Inr ps \<Longrightarrow> compatible (batch_len A) (batch_len B)"
  by (cases A; cases B) (auto simp: compatible_def split: if_splits)

lemma einsum_success:
  assumes "einsum ok core A B = Inr r"
  shows "compatible (batch_len A) (batch_len B) \<and> r = bmap2 core A B"
proof -
  obtain ps where ps: "broadcast_batch A B = Inr ps"
    using assms by (cases "broadcast_batch A B") (auto simp: einsum_def bind_result_def)
  have c: "compatible (batch_len A) (batch_len B)" by (rule broadcast_batch_compatible[OF ps])
  show ?thesis
    using assms c
    by (auto simp: einsum_def bind_result_def broadcast_batch_total[OF c] map_batched_bmap2
          split: if_splits)
qed


subsection \<open>The upper triangle of pairwise distances\<close>

lemma dist_row_eq:
  assumes "\<And>k. k < length ys \<Longrightarrow> dist_m self (Single x) (Single (ys ! k)) = Inr (Single (f k))"
  shows "dist_row self x ys = Inr (map (\<lambda>k. Single (f k)) [0..<length ys])"
  using assms
proof (induction ys arbitrary: f)
  case Nil
  then show ?case by simp
next
  case (Cons y ys)
  have h: "dist_m self (Single x) (Single y) = Inr (Single (f 0))"
    using Cons.prems[of 0] by simp
  have t: "dist_row self x ys = Inr (map (\<lambda>k. Single (f (Suc k))) [0..<length ys])"
    by (rule Cons.IH) (use Cons.prems[of "Suc k" for k] in simp)
  have "map (\<lambda>k. Single (f k)) [0..<length (y # ys)]
        = Single (f 0) # map (\<lambda>k. Single (f (Suc k))) [0..<length ys]"
    by (simp add: map_upt_Suc del: upt_Suc)
  then show ?case using h t by (simp add: bind_result_def del: upt_Suc)
qed

lemma upper_rows_Suc:
  "upper_rows d (Suc n) = map (d 0) [0..<Suc n] # upper_rows (\<lambda>i j. d (Suc i) (Suc j)) n"
proof -
  have "map (\<lambda>i. map (d i) [i..<Suc n]) [0..<Suc n]
      = map (d 0) [0..<Suc n] # map (\<lambda>i. map (d (Suc i)) [Suc i..<Suc n]) [0..<n]"
    by (simp add: map_upt_Suc del: upt_Suc)
  moreover have "map (d (Suc i)) [Suc i..<Suc n] = map (\<lambda>j. d (Suc i) (Suc j)) [i..<n]" for i
    by (simp add: map_Suc_upt[symmetric] del: upt_Suc)
  ultimately show ?thesis by (simp add: upper_rows_def del: upt_Suc)
qed

lemma pairwise_loop_eq:
  assumes "\<And>i j. i \<le> j \<Longrightarrow> j < length ps \<Longrightarrow>
             dist_m self (Single (ps ! i)) (Single (ps ! j)) = Inr (Single (d i j))"
  shows "pairwise_loop self ps = Inr (concat (upper_rows (\<lambda>i j. Single (d i j)) (length ps)))"
  using assms
proof (induction ps arbitrary: d)
  case Nil
  then show ?case by (simp add: upper_rows_def)
next
  case (Cons x rest)
  have row: "dist_row self x (x # rest) = Inr (map (\<lambda>k. Single (d 0 k)) [0..<length (x # rest)])"
    by (rule dist_row_eq) (use Cons.prems[of 0] in simp)
  have others: "pairwise_loop self rest
      = Inr (concat (upper_rows (\<lambda>i j. Single (d (Suc i) (Suc j))) (length rest)))"
    by (rule Cons.IH) (use Cons.prems[of "Suc i" "Suc j" for i j] in simp)
  show ?case
    unfolding pairwise_loop.simps row others
    by (simp add: bind_result_def upper_rows_Suc del: upt_Suc dist_row.simps)
qed

lemma gs_array_numbers: "gs_array (map Single xs) = Inr (Single xs)"
proof -
  have "list_all (\<lambda>x. \<not> is_batch x) (map Single xs)"
    by (simp add: list_all_iff is_batch_def)
  moreover have "concat (map entries (map Single xs)) = xs"
    by (induction xs) (simp_all add: entries_def)
  ultimately show ?thesis by (simp add: gs_array_def del: map_map)
qed

lemma gs_array_upper_rows:
  "gs_array (concat (upper_rows (\<lambda>i j. Single (d i j)) n)) = Inr (Single (concat (upper_rows d n)))"
proof -
  have "upper_rows (\<lambda>i j. Single (d i j)) n = map (map Single) (upper_rows d n)"
    by (simp add: upper_rows_def comp_def)
  then have "concat (upper_rows (\<lambda>i j. Single (d i j)) n) = map Single (concat (upper_rows d n))"
    by (simp only: map_concat)
  then show ?thesis by (simp only: gs_array_numbers)
qed

lemma triu_offset_take:
  "i \<le> n \<Longrightarrow> sum_list (map length (take i (upper_rows d n))) = triu_offset n i"
proof (induction i)
  case 0
  then show ?case by simp
next
  case (Suc i)
  then have "take (Suc i) (upper_rows d n) = take i (upper_rows d n) @ [upper_rows d n ! i]"
    by (simp add: take_Suc_conv_app_nth upper_rows_def)
  moreover have "length (upper_rows d n ! i) = n - i"
    using Suc.prems by (simp add: upper_rows_def)
  ultimately show ?case using Suc by simp
qed

lemma nth_concat_offset:
  "i < length xss \<Longrightarrow> k < length (xss ! i) \<Longrightarrow>
   concat xss ! (sum_list (map length (take i xss)) + k) = xss ! i ! k"
proof (induction xss arbitrary: i)
  case Nil
  then show ?case by simp
next
  case (Cons xs xss)
  show ?case
  proof (cases i)
    case 0
    then show ?thesis using Cons.prems by (simp add: nth_append)
  next
    case (Suc i')
    then show ?thesis using Cons.prems Cons.IH[of i'] by (simp add: nth_append add.assoc)
  qed
qed

lemma concat_upper_rows_nth:
  assumes "i \<le> j" "j < n"
  shows "concat (upper_rows d n) ! (triu_offset n i + (j - i)) = d i j"
proof -
  have i: "i < length (upper_rows d n)" using assms by (simp add: upper_rows_def)
  have k: "j - i < length (upper_rows d n ! i)" using assms by (simp add: upper_rows_def)
  have "concat (upper_rows d n) ! (sum_list (map length (take i (upper_rows d n))) + (j - i))
        = upper_rows d n ! i ! (j - i)"
    by (rule nth_concat_offset[OF i k])
  also have "\<dots> = d i j" using assms by (simp add: upper_rows_def)
  finally show ?thesis using assms by (simp add: triu_offset_take)
qed

lemma length_concat_upper_rows: "length (concat (upper_rows d n)) = triu_offset n n"
  using triu_offset_take[of n n d] by (simp add: length_concat upper_rows_def)

lemma triu_offset_closed: "i \<le> n \<Longrightarrow> 2 * triu_offset n i + i * i = i * (2 * n + 1)"
proof (induction i)
  case 0
  then show ?case by simp
next
  case (Suc i)
  then have ih: "2 * triu_offset n i + i * i = i * (2 * n + 1)" and le: "Suc i \<le> n" by simp_all
  have "(n - i) + i = n" using le by simp
  then have "2 * (n - i) + 2 * i = 2 * n" by simp
  then have "2 * triu_offset n (Suc i) + Suc i * Suc i
      = (2 * triu_offset n i + i * i) + 2 * n + 1"
    by (simp add: algebra_simps)
  then show ?case using ih by (simp add: algebra_simps)
qed

lemma triu_offset_full: "triu_offset n n = n * (n + 1) div 2"
proof -
  have "2 * triu_offset n n + n * n = n * (2 * n + 1)"
    using triu_offset_closed[of n n] by simp
  then have "2 * triu_offset n n = n * (n + 1)" by (simp add: algebra_simps)
  then show ?thesis by simp
qed

lemma tri_strict_mono: "m < n \<Longrightarrow> m * (m + 1) div 2 < n * (n + 1) div (2::nat)"
proof -
  assume "m < n"
  then have "Suc m \<le> n" by simp
  then have "Suc m * (Suc m + 1) \<le> n * (n + 1)" by (intro mult_le_mono) simp_all
  moreover have "Suc m * (Suc m + 1) div 2 = m * (m + 1) div 2 + Suc m"
    by (simp add: algebra_simps)
  ultimately have "m * (m + 1) div 2 + Suc m \<le> n * (n + 1) div 2"
    by (metis div_le_mono)
  then show ?thesis by simp
qed

lemma mat_dim_triangular: "mat_dim (n * (n + 1) div 2) = Some n"
proof -
  let ?t = "\<lambda>k::nat. k * (k + 1) div 2"
  have le: "n \<le> ?t n" by (induction n) (simp_all add: algebra_simps)
  have uniq: "?t k = ?t n \<Longrightarrow> k = n" for k
    using tri_strict_mono[of k n] tri_strict_mono[of n k] by (cases k n rule: linorder_cases) auto
  have "find (\<lambda>k. ?t k = ?t n) [0..<?t n + 1] = Some n"
    unfolding find_Some_iff
    using le uniq by (intro exI[of _ n]) (auto simp del: upt_Suc)
  then show ?thesis by (simp add: mat_dim_def)
qed

lemma from_vector_upper_rows:
  "from_vector (Single (concat (upper_rows d n))) = Inr (Single (mirrored d n))"
proof -
  have len: "length (concat (upper_rows d n)) = n * (n + 1) div 2"
    by (simp only: length_concat_upper_rows triu_offset_full)
  have "concat (upper_rows d n) ! triu_index n i j = d (min i j) (max i j)"
    if "i < n" "j < n" for i j
    unfolding triu_index_def
    by (rule concat_upper_rows_nth) (use that in auto)
  then have "symmetric_of n (concat (upper_rows d n)) = mirrored d n"
    unfolding mirrored_def symmetric_of_def by (intro map_cong refl) simp
  then show ?thesis
    unfolding from_vector_def batched.case len mat_dim_triangular by simp
qed

subsection \<open>The inner product\<close>

lemma is_matrix_square_ncols: "is_matrix d d M \<Longrightarrow> ncols M = d"
  by (cases M) (auto simp: is_matrix_def ncols_def)

lemma is_matrix_length: "is_matrix r c M \<Longrightarrow> length M = r"
  by (simp add: is_matrix_def)

lemma is_matrix_row: "is_matrix r c M \<Longrightarrow> i < r \<Longrightarrow> length (M ! i) = c"
  by (simp add: is_matrix_def list_all_length)

lemma ok_j_jk_square: "length a = d \<Longrightarrow> is_matrix d d M \<Longrightarrow> ok_j_jk a M"
  by (simp add: ok_j_jk_def is_matrix_square_ncols is_matrix_length compatible_same)

lemma core_j_jk_k_square:
  assumes "length a = d" "is_matrix d d M"
  shows "core_j_jk_k a M
           = map (\<lambda>k. sum_list (map (\<lambda>j. a ! j * M ! j ! k) [0..<d])) [0..<d]"
proof -
  have "sum_list (map (\<lambda>j. stretch a j * stretch M j ! k) [0..<d])
      = sum_list (map (\<lambda>j. a ! j * M ! j ! k) [0..<d])" for k
    by (rule arg_cong[where f = sum_list], rule map_cong)
       (use assms in \<open>simp_all add: stretch_nth is_matrix_length\<close>)
  then show ?thesis
    using assms
    by (simp add: core_j_jk_k_def is_matrix_square_ncols is_matrix_length broadcast_len_same)
qed

lemma core_k_k_same_length:
  assumes "length a = d" "length b = d"
  shows "core_k_k a b = sum_list (map (\<lambda>k. a ! k * b ! k) [0..<d])"
proof -
  have "sum_list (map (\<lambda>k. stretch a k * stretch b k) [0..<d])
      = sum_list (map (\<lambda>k. a ! k * b ! k) [0..<d])"
    by (rule arg_cong[where f = sum_list], rule map_cong)
       (use assms in \<open>simp_all add: stretch_nth\<close>)
  then show ?thesis using assms by (simp add: core_k_k_def broadcast_len_same)
qed

lemma to_ndarray_batch_axis:
  "to_ndarray_2_axis1 (to_ndarray_lead (Batch xs)) = Batch (map (\<lambda>v. [v]) xs)"
  by (simp add: to_ndarray_lead_def to_ndarray_2_axis1_def)

lemma adapt_result_rows:
  "adapt_result flag (Batch (map (\<lambda>v. [v]) xs))
     = (if flag \<and> length xs = 1 then Single (xs ! 0) else Batch xs)"
proof -
  have "concat (map (\<lambda>v. [v]) xs) = xs" by (induction xs) simp_all
  then show ?thesis by (simp add: adapt_result_def)
qed

lemma length_core_j_jk_k: "length (core_j_jk_k a M) = ncols M"
  by (simp add: core_j_jk_k_def)

lemma vectorize_vector_facts:
  "is_batch (vectorize_vector v)" "batch_len (vectorize_vector v) = batch_len v"
  "pick (vectorize_vector v) i = pick v i"
  by (cases v; simp add: vectorize_vector_def is_batch_def pick.simps(2))+

lemma to_ndarray_lead_facts:
  "is_batch (to_ndarray_lead v)" "batch_len (to_ndarray_lead v) = batch_len v"
  "pick (to_ndarray_lead v) i = pick v i"
  by (cases v; simp add: to_ndarray_lead_def is_batch_def pick.simps(2))+

lemma bmap2_batch:
  "is_batch A \<or> is_batch B \<Longrightarrow>
   bmap2 f A B = Batch (map (\<lambda>i. f (pick A i) (pick B i)) [0..<broadcast_len (batch_len A) (batch_len B)])"
  by (simp add: bmap2_def)

lemma pick_bmap2:
  assumes "is_batch A \<or> is_batch B"
    and "compatible (broadcast_len (batch_len A) (batch_len B)) m"
    and "i < broadcast_len (broadcast_len (batch_len A) (batch_len B)) m"
    and "compatible (batch_len A) (batch_len B)"
  shows "pick (bmap2 f A B) i = f (pick A i) (pick B i)"
proof -
  let ?n1 = "broadcast_len (batch_len A) (batch_len B)"
  let ?xs = "map (\<lambda>i. f (pick A i) (pick B i)) [0..<?n1]"
  have b: "bmap2 f A B = Batch ?xs" using assms(1) by (rule bmap2_batch)
  show ?thesis
  proof (cases "?n1 = 1")
    case True
    then have one: "batch_len A = 1 \<and> batch_len B = 1"
      using assms(4) by (auto simp: broadcast_len_def compatible_def split: if_splits)
    have pA: "pick A i = pick A 0" using one by (cases A) (auto simp: pick.simps(2))
    have pB: "pick B i = pick B 0" using one by (cases B) (auto simp: pick.simps(2))
    show ?thesis unfolding b using True by (simp add: pick.simps(2) pA pB)
  next
    case False
    then have "i < ?n1"
      using assms(2,3) by (auto simp: broadcast_len_def compatible_def split: if_splits)
    then show ?thesis unfolding b by (simp add: pick_Batch_nth)
  qed
qed

lemma inner_product_body_returned:
  assumes M: "metric_matrix self (map_option vectorize_vector base_point) = Inr M"
    and r: "inner_product_body self (vectorize_vector a) (vectorize_vector b)
              (map_option vectorize_vector base_point) = Inr r"
  shows "r = Batch (map (\<lambda>v. [v]) (inner_product_values a M b))"
proof -
  let ?A = "vectorize_vector a" and ?B = "vectorize_vector b" and ?M = "to_ndarray_lead M"
  obtain aux where aux: "einsum ok_j_jk core_j_jk_k ?A ?M = Inr aux"
    using r M
    by (cases "einsum ok_j_jk core_j_jk_k ?A ?M")
       (auto simp: inner_product_body_def bind_result_def)
  obtain ip where ip: "einsum ok_k_k core_k_k aux ?B = Inr ip"
      and rip: "r = to_ndarray_2_axis1 (to_ndarray_lead ip)"
    using r M aux
    by (cases "einsum ok_k_k core_k_k aux ?B")
       (auto simp: inner_product_body_def bind_result_def)
  from einsum_success[OF aux]
  have c1: "compatible (batch_len ?A) (batch_len ?M)" and auxv: "aux = bmap2 core_j_jk_k ?A ?M"
    by simp_all
  have lenaux: "batch_len aux = broadcast_len (batch_len ?A) (batch_len ?M)"
    unfolding auxv by (simp add: bmap2_batch vectorize_vector_facts)
  from einsum_success[OF ip]
  have c2: "compatible (batch_len aux) (batch_len ?B)" and ipv: "ip = bmap2 core_k_k aux ?B"
    by simp_all
  let ?n = "broadcast_len (batch_len aux) (batch_len ?B)"
  have ipb: "ip = Batch (map (\<lambda>i. core_k_k (pick aux i) (pick ?B i)) [0..<?n])"
    unfolding ipv by (simp add: bmap2_batch vectorize_vector_facts)
  have pk: "pick aux i = core_j_jk_k (pick ?A i) (pick ?M i)" if "i < ?n" for i
    unfolding auxv
    by (rule pick_bmap2[where m = "batch_len ?B"])
       (use that c1 c2 lenaux in \<open>simp_all add: vectorize_vector_facts\<close>)
  have "map (\<lambda>i. core_k_k (pick aux i) (pick ?B i)) [0..<?n]
      = map (\<lambda>i. core_k_k (core_j_jk_k (pick a i) (pick M i)) (pick b i)) [0..<?n]"
    by (rule map_cong) (simp_all add: pk vectorize_vector_facts to_ndarray_lead_facts)
  then show ?thesis
    unfolding rip ipb inner_product_values_def to_ndarray_batch_axis
    by (simp add: comp_def lenaux vectorize_vector_facts to_ndarray_lead_facts)
qed

lemma inner_product_returned:
  assumes M: "metric_matrix self (map_option vectorize_vector base_point) = Inr M"
    and r: "inner_product self a b base_point = Inr r"
  shows "r = (if no_batched_vector a b base_point \<and> length (inner_product_values a M b) = 1
              then Single (inner_product_values a M b ! 0)
              else Batch (inner_product_values a M b))"
proof -
  obtain rows where rows: "inner_product_body self (vectorize_vector a) (vectorize_vector b)
              (map_option vectorize_vector base_point) = Inr rows"
      and rr: "r = adapt_result (no_batched_vector a b base_point) rows"
    using r
    by (cases "inner_product_body self (vectorize_vector a) (vectorize_vector b)
              (map_option vectorize_vector base_point)")
       (auto simp: inner_product_def bind_result_def)
  show ?thesis
    unfolding rr inner_product_body_returned[OF M rows] adapt_result_rows ..
qed

lemma broadcast_shapes:
  assumes c1: "compatible (batch_len a) (batch_len M)"
    and c2: "compatible (broadcast_len (batch_len a) (batch_len M)) (batch_len b)"
    and sa: "\<And>i. i < broadcast_len (batch_len a) (batch_len M) \<Longrightarrow> P (pick a i) (pick M i)"
    and i: "i < broadcast_len (broadcast_len (batch_len a) (batch_len M)) (batch_len b)"
  shows "P (pick a i) (pick M i)"
proof -
  have "i < broadcast_len (batch_len a) (batch_len M) \<or>
        (batch_len a = 1 \<and> batch_len M = 1)"
    using i c1 c2 by (auto simp: broadcast_len_def compatible_def split: if_splits)
  then show ?thesis
  proof
    assume "i < broadcast_len (batch_len a) (batch_len M)"
    then show ?thesis by (rule sa)
  next
    assume one: "batch_len a = 1 \<and> batch_len M = 1"
    have pA: "pick a i = pick a 0" using one by (cases a) (auto simp: pick.simps(2))
    have pM: "pick M i = pick M 0" using one by (cases M) (auto simp: pick.simps(2))
    show ?thesis using sa[of 0] one by (simp add: pA pM broadcast_len_def)
  qed
qed

lemma inner_product_returns:
  assumes M: "metric_matrix self (map_option vectorize_vector base_point) = Inr M"
    and c1: "compatible (batch_len a) (batch_len M)"
    and c2: "compatible (broadcast_len (batch_len a) (batch_len M)) (batch_len b)"
    and sa: "\<And>i. i < broadcast_len (batch_len a) (batch_len M) \<Longrightarrow>
               length (pick a i) = d \<and> is_matrix d d (pick M i)"
    and sb: "\<And>i. i < broadcast_len (broadcast_len (batch_len a) (batch_len M)) (batch_len b) \<Longrightarrow>
               length (pick b i) = d"
  shows "inner_product self a b base_point
           = Inr (if no_batched_vector a b base_point \<and> length (inner_product_values a M b) = 1
                  then Single (inner_product_values a M b ! 0)
                  else Batch (inner_product_values a M b))"
proof -
  let ?A = "vectorize_vector a" and ?B = "vectorize_vector b" and ?M = "to_ndarray_lead M"
  let ?aux = "bmap2 core_j_jk_k ?A ?M"
  have aux: "einsum ok_j_jk core_j_jk_k ?A ?M = Inr ?aux"
    by (rule einsum_total)
       (use c1 sa in \<open>auto simp: vectorize_vector_facts to_ndarray_lead_facts
          intro: ok_j_jk_square\<close>)
  have lenaux: "batch_len ?aux = broadcast_len (batch_len a) (batch_len M)"
    by (simp add: bmap2_batch vectorize_vector_facts to_ndarray_lead_facts)
  let ?n = "broadcast_len (broadcast_len (batch_len a) (batch_len M)) (batch_len b)"
  have pk: "pick ?aux i = core_j_jk_k (pick a i) (pick M i)" if "i < ?n" for i
    using pick_bmap2[where f = core_j_jk_k and A = ?A and B = ?M and m = "batch_len b" and i = i]
      that c1 c2
    by (simp add: vectorize_vector_facts to_ndarray_lead_facts)
  have okb: "ok_k_k (pick ?aux i) (pick ?B i)" if "i < ?n" for i
  proof -
    have "length (pick a i) = d \<and> is_matrix d d (pick M i)"
      using c1 c2 sa that by (rule broadcast_shapes)
    then have "ncols (pick M i) = d" by (simp add: is_matrix_square_ncols)
    then show ?thesis
      using sb[OF that]
      by (simp add: pk[OF that] ok_k_k_def length_core_j_jk_k vectorize_vector_facts
            compatible_same)
  qed
  have ip: "einsum ok_k_k core_k_k ?aux ?B = Inr (bmap2 core_k_k ?aux ?B)"
    by (rule einsum_total) (use c2 okb in \<open>simp_all add: lenaux vectorize_vector_facts\<close>)
  have "map (\<lambda>i. core_k_k (pick ?aux i) (pick ?B i)) [0..<?n]
      = map (\<lambda>i. core_k_k (core_j_jk_k (pick a i) (pick M i)) (pick b i)) [0..<?n]"
    by (rule map_cong) (simp_all add: pk vectorize_vector_facts)
  then have "to_ndarray_2_axis1 (to_ndarray_lead (bmap2 core_k_k ?aux ?B))
               = Batch (map (\<lambda>v. [v]) (inner_product_values a M b))"
    unfolding inner_product_values_def
    by (simp add: bmap2_batch[of ?aux ?B] vectorize_vector_facts lenaux
          to_ndarray_batch_axis comp_def)
  then have "inner_product_body self ?A ?B (map_option vectorize_vector base_point)
               = Inr (Batch (map (\<lambda>v. [v]) (inner_product_values a M b)))"
    using M aux ip
    by (simp add: inner_product_body_def bind_result_def)
  then show ?thesis
    by (simp only: inner_product_def bind_result_def sum.case adapt_result_rows)
qed

lemma inner_product_values_explicit:
  assumes c1: "compatible (batch_len a) (batch_len M)"
    and c2: "compatible (broadcast_len (batch_len a) (batch_len M)) (batch_len b)"
    and sa: "\<And>i. i < broadcast_len (batch_len a) (batch_len M) \<Longrightarrow>
               length (pick a i) = d \<and> is_matrix d d (pick M i)"
    and sb: "\<And>i. i < broadcast_len (broadcast_len (batch_len a) (batch_len M)) (batch_len b) \<Longrightarrow>
               length (pick b i) = d"
  shows "inner_product_values a M b
           = map (\<lambda>i. sum_list (map (\<lambda>k.
                    sum_list (map (\<lambda>j. pick a i ! j * pick M i ! j ! k) [0..<d]) * pick b i ! k)
                  [0..<d]))
               [0..<broadcast_len (broadcast_len (batch_len a) (batch_len M)) (batch_len b)]"
  unfolding inner_product_values_def
proof (rule map_cong[OF refl])
  fix i
  assume "i \<in> set [0..<broadcast_len (broadcast_len (batch_len a) (batch_len M)) (batch_len b)]"
  then have i: "i < broadcast_len (broadcast_len (batch_len a) (batch_len M)) (batch_len b)"
    by simp
  have s: "length (pick a i) = d \<and> is_matrix d d (pick M i)"
    using c1 c2 sa i by (rule broadcast_shapes)
  have j: "core_j_jk_k (pick a i) (pick M i)
             = map (\<lambda>k. sum_list (map (\<lambda>j. pick a i ! j * pick M i ! j ! k) [0..<d])) [0..<d]"
    using s by (simp add: core_j_jk_k_square)
  have "core_k_k (core_j_jk_k (pick a i) (pick M i)) (pick b i)
      = sum_list (map (\<lambda>k. core_j_jk_k (pick a i) (pick M i) ! k * pick b i ! k) [0..<d])"
    by (rule core_k_k_same_length) (simp_all add: j sb[OF i])
  also have "\<dots> = sum_list (map (\<lambda>k.
        sum_list (map (\<lambda>j. pick a i ! j * pick M i ! j ! k) [0..<d]) * pick b i ! k) [0..<d])"
    by (rule arg_cong[where f = sum_list], rule map_cong) (simp_all add: j)
  finally show "core_k_k (core_j_jk_k (pick a i) (pick M i)) (pick b i)
      = sum_list (map (\<lambda>k.
          sum_list (map (\<lambda>j. pick a i ! j * pick M i ! j ! k) [0..<d]) * pick b i ! k) [0..<d])" .
qed

lemma upt_0_2: "[0..<2] = [0, Suc 0]"
  by (simp add: numeral_2_eq_2)

lemma identity_matrix_2: "identity_matrix 2 = [[1, 0], [0, 1]]"
  by (simp add: identity_matrix_def upt_0_2)

lemma inner_product_stretches_labelled_axis:
  "inner_product (euclidean_metric 2) (Single [5]) (Single [3, 4]) None = Inr (Single 35)"
  by (simp add: inner_product_def inner_product_body_def euclidean_metric_def bind_result_def
        vectorize_vector_def to_ndarray_lead_def to_ndarray_2_axis1_def einsum_def
        ok_j_jk_def ok_k_k_def core_j_jk_k_def core_k_k_def identity_matrix_2 ncols_def
        is_matrix_def compatible_def broadcast_len_def stretch_def upt_0_2
        adapt_result_def no_batched_vector_def is_batch_def)

subsection \<open>Distances of the concrete metrics\<close>

lemma vector_difference_single:
  "length a = length b \<Longrightarrow>
   vector_difference (Single a) (Single b) = Inr (Single (map (\<lambda>i. a ! i - b ! i) [0..<length a]))"
proof -
  assume len: "length a = length b"
  have "map (\<lambda>i. stretch a i - stretch b i) [0..<length b] = map (\<lambda>i. a ! i - b ! i) [0..<length b]"
    by (rule map_cong) (simp_all add: stretch_nth len)
  then show ?thesis
    using len
    by (simp add: vector_difference_def einsum_def bind_result_def compatible_same
          broadcast_len_same)
qed

lemma sqrt_f_square: "sqrt_f (x * x) = Finite \<bar>x\<bar>"
  by (simp add: sqrt_f_def not_less)

lemma dist_euclid_1:
  "dist_m (euclidean_metric (Suc 0)) (Single [x]) (Single [y]) = Inr (Single (Finite \<bar>y - x\<bar>))"
proof -
  have "squared_dist (euclidean_metric (Suc 0)) (Single [x]) (Single [y])
          = Inr (Single ((y - x) * (y - x)))"
    by (simp add: squared_dist_def squared_norm_def inner_product_def
        inner_product_body_def euclidean_metric_def vector_difference_single bind_result_def
        vectorize_vector_def to_ndarray_lead_def to_ndarray_2_axis1_def einsum_def
        ok_j_jk_def ok_k_k_def core_j_jk_k_def core_k_k_def identity_matrix_def ncols_def
        is_matrix_def compatible_def broadcast_len_def stretch_def
        adapt_result_def no_batched_vector_def is_batch_def)
  then show ?thesis
    by (simp add: dist_m_def bind_result_def gs_sqrt_def sqrt_f_square)
qed

subsection \<open>The base classes\<close>



subsection \<open>The Hamiltonian flow\<close>

lemma Hamiltonian_equation_unfolded:
  "Hamiltonian_equation gs self position momentum =
     (case hamiltonian self (position, momentum) of
        Inl e \<Rightarrow> Inl e
      | Inr H \<Rightarrow>
          (case grad_engine gs (hamiltonian self) (position, momentum) of
             Inl e \<Rightarrow> Inl e
           | Inr (dH_dq, dH_dp) \<Rightarrow>
               Inr (Tuple [Tuple [Vectors dH_dq, Vectors dH_dp],
                           Scalars (map_batched uminus H)])))"
  by (simp add: Hamiltonian_equation_def value_and_grad_def bind_result_def
        split: sum.splits prod.splits)

lemma hamiltonian_unit_cometric:
  "hamiltonian unit_cometric (Single [q], Single [p]) = Inr (Single (1 / 2 * (p * p)))"
  by (simp add: hamiltonian_def inner_coproduct_def unit_cometric_def RiemannianCometric_over_def
        bind_result_def einsum_def ok_ij_j_def core_ij_j_i_def ok_k_k_def core_k_k_def
        is_matrix_def ncols_def compatible_def broadcast_len_def stretch_def)

lemma Hamiltonian_equation_returns_nested_tuple:
  "Hamiltonian_equation gs self position momentum = Inr v \<Longrightarrow>
   \<exists>dH_dq dH_dp H. v = Tuple [Tuple [Vectors dH_dq, Vectors dH_dp], Scalars H]"
  by (auto simp: Hamiltonian_equation_def bind_result_def split: sum.splits prod.splits)

lemma advance_nested_tuple:
  "advance state (Tuple [Tuple [Vectors dH_dq, Vectors dH_dp], Scalars H]) h
     = Inl (TypeError ''can't multiply sequence by non-int of type float'')"
  by (cases state) (simp add: advance_def unpack_pair_def py_scale_def bind_result_def)

lemma euler_step_Hamiltonian_equation:
  "euler_step (Hamiltonian_equation gs self) state dt
     = (case Hamiltonian_equation gs self (fst state) (snd state) of
          Inl e \<Rightarrow> Inl e
        | Inr v \<Rightarrow> Inl (TypeError ''can't multiply sequence by non-int of type float''))"
proof (cases "Hamiltonian_equation gs self (fst state) (snd state)")
  case (Inl e)
  then show ?thesis by (cases state) (simp add: euler_step_def bind_result_def)
next
  case (Inr v)
  from Hamiltonian_equation_returns_nested_tuple[OF Inr]
  obtain dH_dq dH_dp H where v: "v = Tuple [Tuple [Vectors dH_dq, Vectors dH_dp], Scalars H]"
    by blast
  show ?thesis
    using Inr by (cases state) (simp add: euler_step_def bind_result_def v advance_nested_tuple)
qed

lemma rk4_step_Hamiltonian_equation:
  "rk4_step (Hamiltonian_equation gs self) state dt
     = (case Hamiltonian_equation gs self (fst state) (snd state) of
          Inl e \<Rightarrow> Inl e
        | Inr v \<Rightarrow> Inl (TypeError ''can't multiply sequence by non-int of type float''))"
proof (cases "Hamiltonian_equation gs self (fst state) (snd state)")
  case (Inl e)
  then show ?thesis by (simp add: rk4_step_def bind_result_def)
next
  case (Inr v)
  from Hamiltonian_equation_returns_nested_tuple[OF Inr]
  obtain dH_dq dH_dp H where v: "v = Tuple [Tuple [Vectors dH_dq, Vectors dH_dp], Scalars H]"
    by blast
  show ?thesis
    using Inr by (simp add: rk4_step_def bind_result_def v advance_nested_tuple)
qed

lemma trajectory_failing_step:
  "stp s = Inl e \<Longrightarrow> trajectory stp (Suc n) s = Inl e"
  by (simp add: bind_result_def)

lemma integrate_Hamiltonian_equation_raises:
  "\<exists>e. integrate (Hamiltonian_equation gs self) initial_state n_steps step = Inl e"
proof (cases "step \<noteq> ''euler'' \<and> step \<noteq> ''rk4''")
  case True
  then show ?thesis by (simp add: integrate_def)
next
  case known: False
  show ?thesis
  proof (cases n_steps)
    case 0
    then show ?thesis using known by (simp add: integrate_def)
  next
    case (Suc n)
    let ?dt = "1 / real n_steps"
    let ?stp = "\<lambda>state. (if step = ''euler'' then euler_step else rk4_step)
                  (Hamiltonian_equation gs self) state ?dt"
    obtain e where "?stp initial_state = Inl e"
      by (cases "Hamiltonian_equation gs self (fst initial_state) (snd initial_state)")
         (simp_all add: euler_step_Hamiltonian_equation rk4_step_Hamiltonian_equation)
    then have "trajectory ?stp n_steps initial_state = Inl e"
      unfolding Suc by (rule trajectory_failing_step)
    then show ?thesis
      using known Suc by (simp add: integrate_def bind_result_def)
  qed
qed

lemma exp_m_unfolded:
  "exp_m gs self cotangent_vec base_point n_steps step point_type
     = (case integrate (Hamiltonian_equation gs self) (base_point, cotangent_vec)
               (case n_steps of None \<Rightarrow> 10 | Some n \<Rightarrow> n)
               (case step of None \<Rightarrow> ''euler'' | Some s \<Rightarrow> s) of
          Inl e \<Rightarrow> Inl e
        | Inr (flow, velocities) \<Rightarrow>
            (case flow of [] \<Rightarrow> Inl (IndexError ''list index out of range'')
                        | _ # _ \<Rightarrow> Inr (last flow)))"
  by (cases n_steps; cases step) (simp_all add: exp_m_def N_STEPS_def bind_result_def)

lemma exp_m_raises:
  "\<exists>e. exp_m gs self cotangent_vec base_point n_steps step point_type = Inl e"
proof -
  obtain e where "integrate (Hamiltonian_equation gs self) (base_point, cotangent_vec)
               (case n_steps of None \<Rightarrow> 10 | Some n \<Rightarrow> n)
               (case step of None \<Rightarrow> ''euler'' | Some s \<Rightarrow> s) = Inl e"
    using integrate_Hamiltonian_equation_raises by blast
  then show ?thesis by (simp add: exp_m_unfolded)
qed

subsection \<open>The test case\<close>

lemma assertAllEqual_same_length:
  "length bs = length es \<Longrightarrow>
   assertAllEqual (Batch bs) es
     = (if bs = es then Inr () else Inl (AssertionError ''Arrays are not equal''))"
  by (simp add: assertAllEqual_def)

lemma all_False_iff: "length bs = n \<Longrightarrow> (bs = replicate n False) = list_all Not bs"
proof (induction bs arbitrary: n)
  case Nil
  then show ?case by simp
next
  case (Cons b bs)
  then obtain m where n: "n = Suc m" and m: "length bs = m" by (cases n) auto
  show ?case using Cons.IH[OF m] by (simp add: n)
qed

subsection \<open>The gradient of the loss\<close>

lemma broadcast_batch_map:
  "broadcast_batch (map_batched f A) (map_batched g B)
     = (case broadcast_batch A B of
          Inl e \<Rightarrow> Inl e
        | Inr ps \<Rightarrow> Inr (map_batched (\<lambda>(a, b). (f a, g b)) ps))"
proof (cases A)
  case (Single a)
  then show ?thesis by (cases B) simp_all
next
  case A: (Batch as)
  show ?thesis
  proof (cases B)
    case (Single b)
    then show ?thesis using A by simp
  next
    case B: (Batch bs)
    have h1: "length as = 1 \<Longrightarrow> hd (map f as) = f (hd as)" by (cases as) simp_all
    have h2: "length bs = 1 \<Longrightarrow> hd (map g bs) = g (hd bs)" by (cases bs) simp_all
    show ?thesis using A B by (simp add: zip_map_map h1 h2)
  qed
qed

lemma einsum_map:
  "einsum ok core (map_batched f A) (map_batched g B)
     = einsum (\<lambda>a b. ok (f a) (g b)) (\<lambda>a b. core (f a) (g b)) A B"
proof (cases "broadcast_batch A B")
  case (Inl e)
  then show ?thesis by (simp add: einsum_def bind_result_def broadcast_batch_map)
next
  case (Inr ps)
  have "all_batched (\<lambda>(a, b). ok a b) (map_batched (\<lambda>(a, b). (f a, g b)) ps)
          = all_batched (\<lambda>(a, b). ok (f a) (g b)) ps"
    by (cases ps) (simp_all add: list_all_iff case_prod_beta)
  moreover have "map_batched (\<lambda>(a, b). core a b) (map_batched (\<lambda>(a, b). (f a, g b)) ps)
          = map_batched (\<lambda>(a, b). core (f a) (g b)) ps"
    by (cases ps) (simp_all add: case_prod_beta)
  ultimately show ?thesis
    using Inr by (simp add: einsum_def bind_result_def broadcast_batch_map)
qed

lemma gs_transpose_axes:
  "gs_transpose M (if is_batch M then [0, 2, 1] else [1, 0]) = Inr (map_batched transpose_m M)"
  by (cases M) (simp_all add: gs_transpose_def is_batch_def)

lemma transpose_m_square: "is_matrix d d M \<Longrightarrow> is_matrix d d (transpose_m M)"
  by (simp add: transpose_m_def is_matrix_square_ncols) (simp add: is_matrix_def list_all_iff)

lemma ok_i_ij_square: "length v = d \<Longrightarrow> is_matrix d d N \<Longrightarrow> ok_i_ij v N"
  by (simp add: ok_i_ij_def is_matrix_square_ncols is_matrix_length compatible_same)

lemma length_core_i_ij_i_square:
  "length v = d \<Longrightarrow> is_matrix d d N \<Longrightarrow> length (core_i_ij_i v N) = d"
  by (simp add: core_i_ij_i_def is_matrix_length broadcast_len_same)

lemma grad_unfolded:
  assumes "log_m metric y_true y_pred = Inr tangent_vec"
    and "metric_matrix metric (Some y_pred) = Inr M"
  shows "grad y_pred y_true metric
           = einsum (\<lambda>v N. ok_i_ij (map (\<lambda>x. - 2 * x) v) (transpose_m N))
               (\<lambda>v N. core_i_ij_i (map (\<lambda>x. - 2 * x) v) (transpose_m N)) tangent_vec M"
  using assms
  by (simp add: grad_def bind_result_def gs_transpose_axes einsum_map)

lemma same_shape_bmap2:
  assumes "\<And>i. i < broadcast_len (batch_len t) (batch_len M) \<Longrightarrow>
             length (f (pick t i) (pick M i)) = length (pick t i)"
    and "is_batch M \<longrightarrow> is_batch t \<and> batch_len M = batch_len t"
  shows "same_shape (bmap2 f t M) t"
proof (cases t)
  case (Single v)
  then have "\<not> is_batch M" using assms(2) by (simp add: is_batch_def)
  then obtain N where N: "M = Single N" by (cases M) (simp_all add: is_batch_def)
  show ?thesis
    using Single N assms(1)[of 0]
    by (simp add: bmap2_def same_shape_def is_batch_def broadcast_len_def)
next
  case (Batch ts)
  have bl: "broadcast_len (length ts) (batch_len M) = length ts"
    using assms(2) Batch by (cases M) (auto simp: broadcast_len_def is_batch_def)
  have "map (\<lambda>i. length (f (pick t i) (pick M i))) [0..<length ts] = map length ts"
    using Batch assms(1) bl by (intro nth_equalityI) (simp_all add: pick_Batch_nth)
  then show ?thesis
    using Batch by (simp add: bmap2_def same_shape_def is_batch_def bl comp_def)
qed

lemma same_shape_trans: "same_shape x y \<Longrightarrow> same_shape y z \<Longrightarrow> same_shape x z"
  by (cases x; cases y; cases z) (simp_all add: same_shape_def)

lemma core_i_ij_i_entry:
  "i < length v \<Longrightarrow> is_matrix (length v) (length v) M \<Longrightarrow>
   core_i_ij_i (map (\<lambda>x. - 2 * x) v) (transpose_m M) ! i
     = sum_list (map (\<lambda>j. (- 2 * v ! i) * M ! j ! i) [0..<length v])"
proof -
  assume i: "i < length v" and M: "is_matrix (length v) (length v) M"
  have nc: "ncols (transpose_m M) = length v"
    using transpose_m_square[OF M] by (rule is_matrix_square_ncols)
  have ncM: "ncols M = length v" using M by (rule is_matrix_square_ncols)
  have lenM: "length M = length v" using M by (simp add: is_matrix_def)
  have t: "transpose_m M ! i ! j = M ! j ! i" if "j < length v" for j
    using i that by (simp add: transpose_m_def ncM lenM)
  have lenT: "length (transpose_m M) = length v" by (simp add: transpose_m_def ncM)
  have "core_i_ij_i (map (\<lambda>x. - 2 * x) v) (transpose_m M) ! i
      = sum_list (map (\<lambda>j. (- 2 * v ! i) * transpose_m M ! i ! j) [0..<length v])"
    using i by (simp add: core_i_ij_i_def nc lenT broadcast_len_same stretch_nth)
  also have "\<dots> = sum_list (map (\<lambda>j. (- 2 * v ! i) * M ! j ! i) [0..<length v])"
    by (rule arg_cong[where f = sum_list], rule map_cong) (simp_all add: t)
  finally show ?thesis .
qed

lemma vector_difference_batch2:
  "vector_difference (Batch [[a, b], [c, d]]) (Batch [[e, f], [g, h]])
     = Inr (Batch [[a - e, b - f], [c - g, d - h]])"
  by (simp add: vector_difference_def einsum_def bind_result_def upt_0_2 compatible_def
        broadcast_len_def stretch_def)

lemma grad_rows_identity_2:
  "grad_rows (Batch [[a, b], [c, d]]) (Single (identity_matrix 2))
     = Batch [[- 2 * a, - 2 * b], [- 2 * c, - 2 * d]]"
  by (simp add: grad_rows_def bmap2_def is_batch_def broadcast_len_def upt_0_2 pick.simps(2)
        core_i_ij_i_def transpose_m_def identity_matrix_2 ncols_def stretch_def)

subsection \<open>The Christoffel symbols\<close>

lemma tabulate3_dims:
  "length (tabulate3 d g) = d" "dim1 (tabulate3 d g) = d" "dim2 (tabulate3 d g) = d"
proof -
  show "length (tabulate3 d g) = d" by (simp add: tabulate3_def)
  show "dim1 (tabulate3 d g) = d"
    by (cases d) (simp_all add: tabulate3_def dim1_def upt_rec[of 0] del: upt_Suc)
  show "dim2 (tabulate3 d g) = d"
    by (cases d) (simp_all add: tabulate3_def dim2_def ncols_def upt_rec[of 0] del: upt_Suc)
qed

lemma tabulate3_nth:
  "i < d \<Longrightarrow> k < d \<Longrightarrow> l < d \<Longrightarrow> tabulate3 d g ! i ! k ! l = g i k l"
  by (simp add: tabulate3_def)

lemma tabulate3_cong:
  "(\<And>i k l. i < d \<Longrightarrow> k < d \<Longrightarrow> l < d \<Longrightarrow> g i k l = h i k l) \<Longrightarrow> tabulate3 d g = tabulate3 d h"
  unfolding tabulate3_def by (intro map_cong refl) simp

lemma is_tensor3_tabulate3: "is_tensor3 d d d (tabulate3 d g)"
  by (simp add: is_tensor3_def is_matrix_def tabulate3_def list_all_iff)

lemma same_shape3_tabulate3: "same_shape3 (tabulate3 d g) (tabulate3 d h)"
  by (simp add: same_shape3_def tabulate3_dims is_tensor3_tabulate3 compatible_same)

lemma tabulate3_stretch:
  "i < d \<Longrightarrow> k < d \<Longrightarrow> l < d \<Longrightarrow>
   stretch (stretch (stretch (tabulate3 d g) i) k) l = g i k l"
  by (simp add: stretch_nth tabulate3_def)

lemma add3_tabulate3:
  "add3 (tabulate3 d g) (tabulate3 d h) = tabulate3 d (\<lambda>i k l. g i k l + h i k l)"
proof -
  have "add3 (tabulate3 d g) (tabulate3 d h)
      = tabulate3 d (\<lambda>i k l. stretch (stretch (stretch (tabulate3 d g) i) k) l
                             + stretch (stretch (stretch (tabulate3 d h) i) k) l)"
    by (simp add: add3_def tabulate3_dims broadcast_len_same) (simp add: tabulate3_def)
  also have "\<dots> = tabulate3 d (\<lambda>i k l. g i k l + h i k l)"
    by (rule tabulate3_cong) (simp add: tabulate3_stretch)
  finally show ?thesis .
qed

lemma neg3_tabulate3: "neg3 (tabulate3 d g) = tabulate3 d (\<lambda>i k l. - g i k l)"
  by (simp add: neg3_def tabulate3_def comp_def)

lemma scale3_tabulate3: "scale3 c (tabulate3 d g) = tabulate3 d (\<lambda>i k l. c * g i k l)"
  by (simp add: scale3_def tabulate3_def comp_def)

lemma is_tensor3_cube_dims:
  assumes "is_tensor3 d d d D"
  shows "length D = d" "dim1 D = d" "dim2 D = d"
proof -
  show "length D = d" using assms by (simp add: is_tensor3_def)
  show "dim1 D = d" using assms by (cases D) (auto simp: is_tensor3_def is_matrix_def dim1_def)
  show "dim2 D = d"
    using assms by (cases D) (auto simp: is_tensor3_def dim2_def is_matrix_square_ncols)
qed

lemma is_tensor3_row:
  "is_tensor3 a b c D \<Longrightarrow> k < a \<Longrightarrow> l < b \<Longrightarrow> length (D ! k ! l) = c"
  by (simp add: is_tensor3_def is_matrix_def list_all_length)

lemma contractions_tabulate3:
  assumes C: "is_matrix d d C" and D: "is_tensor3 d d d D"
  shows "core_im_mkl_ikl C D
           = tabulate3 d (\<lambda>i k l. sum_list (map (\<lambda>m. C ! i ! m * D ! m ! k ! l) [0..<d]))"
    and "core_im_mlk_ilk C D
           = tabulate3 d (\<lambda>i l k. sum_list (map (\<lambda>m. C ! i ! m * D ! m ! l ! k) [0..<d]))"
    and "core_im_klm_ikl C D
           = tabulate3 d (\<lambda>i k l. sum_list (map (\<lambda>m. C ! i ! m * D ! k ! l ! m) [0..<d]))"
    and "ok_im_mkl C D" and "ok_im_mlk C D" and "ok_im_klm C D"
proof -
  have lC: "length C = d" using C by (simp add: is_matrix_def)
  have nC: "ncols C = d" using C by (rule is_matrix_square_ncols)
  note dD = is_tensor3_cube_dims[OF D]
  have first: "sum_list (map (\<lambda>m. stretch (C ! i) m * stretch D m ! k ! l) [0..<d])
             = sum_list (map (\<lambda>m. C ! i ! m * D ! m ! k ! l) [0..<d])" if "i < d" for i k l
    by (rule arg_cong[where f = sum_list], rule map_cong)
       (use that in \<open>simp_all add: stretch_nth is_matrix_row[OF C] dD\<close>)
  have last: "sum_list (map (\<lambda>m. stretch (C ! i) m * stretch (D ! k ! l) m) [0..<d])
             = sum_list (map (\<lambda>m. C ! i ! m * D ! k ! l ! m) [0..<d])"
    if "i < d" "k < d" "l < d" for i k l
    by (rule arg_cong[where f = sum_list], rule map_cong)
       (use that in \<open>simp_all add: stretch_nth is_matrix_row[OF C] is_tensor3_row[OF D]\<close>)
  have "core_im_mkl_ikl C D
      = tabulate3 d (\<lambda>i k l. sum_list (map (\<lambda>m. stretch (C ! i) m * stretch D m ! k ! l) [0..<d]))"
    by (simp add: core_im_mkl_ikl_def tabulate3_def lC nC dD broadcast_len_same)
  also have "\<dots> = tabulate3 d (\<lambda>i k l. sum_list (map (\<lambda>m. C ! i ! m * D ! m ! k ! l) [0..<d]))"
    by (rule tabulate3_cong) (rule first)
  finally show "core_im_mkl_ikl C D
           = tabulate3 d (\<lambda>i k l. sum_list (map (\<lambda>m. C ! i ! m * D ! m ! k ! l) [0..<d]))" .
  have "core_im_mlk_ilk C D
      = tabulate3 d (\<lambda>i l k. sum_list (map (\<lambda>m. stretch (C ! i) m * stretch D m ! l ! k) [0..<d]))"
    by (simp add: core_im_mlk_ilk_def tabulate3_def lC nC dD broadcast_len_same)
  also have "\<dots> = tabulate3 d (\<lambda>i l k. sum_list (map (\<lambda>m. C ! i ! m * D ! m ! l ! k) [0..<d]))"
    by (rule tabulate3_cong) (rule first)
  finally show "core_im_mlk_ilk C D
           = tabulate3 d (\<lambda>i l k. sum_list (map (\<lambda>m. C ! i ! m * D ! m ! l ! k) [0..<d]))" .
  have "core_im_klm_ikl C D
      = tabulate3 d (\<lambda>i k l. sum_list (map (\<lambda>m. stretch (C ! i) m * stretch (D ! k ! l) m) [0..<d]))"
    by (simp add: core_im_klm_ikl_def tabulate3_def lC nC dD broadcast_len_same)
  also have "\<dots> = tabulate3 d (\<lambda>i k l. sum_list (map (\<lambda>m. C ! i ! m * D ! k ! l ! m) [0..<d]))"
    by (rule tabulate3_cong) (rule last)
  finally show "core_im_klm_ikl C D
           = tabulate3 d (\<lambda>i k l. sum_list (map (\<lambda>m. C ! i ! m * D ! k ! l ! m) [0..<d]))" .
  show "ok_im_mkl C D" using C D by (simp add: ok_im_mkl_def lC nC dD compatible_same)
  show "ok_im_mlk C D" using C D by (simp add: ok_im_mlk_def lC nC dD compatible_same)
  show "ok_im_klm C D" using C D by (simp add: ok_im_klm_def lC nC dD compatible_same)
qed

lemma christoffels_value_entries:
  assumes C: "is_matrix d d C" and D: "is_tensor3 d d d D"
  shows "christoffels_value C D
    = tabulate3 d (\<lambda>i k l.
        1 / 2 * (sum_list (map (\<lambda>m. C ! i ! m * D ! m ! k ! l) [0..<d])
               + sum_list (map (\<lambda>m. C ! i ! m * D ! m ! k ! l) [0..<d])
               + - sum_list (map (\<lambda>m. C ! i ! m * D ! k ! l ! m) [0..<d])))"
  unfolding christoffels_value_def contractions_tabulate3(1-3)[OF C D]
  by (simp only: neg3_tabulate3 add3_tabulate3 scale3_tabulate3)

lemma einsum_bmap2_same:
  assumes "\<And>i. i < broadcast_len (batch_len A) (batch_len B) \<Longrightarrow>
             ok (f (pick A i) (pick B i)) (g (pick A i) (pick B i))"
  shows "einsum ok core (bmap2 f A B) (bmap2 g A B)
           = Inr (bmap2 (\<lambda>a b. core (f a b) (g a b)) A B)"
proof (cases "is_batch A \<or> is_batch B")
  case True
  let ?n = "broadcast_len (batch_len A) (batch_len B)"
  have z: "zip (map (\<lambda>i. f (pick A i) (pick B i)) [0..<?n]) (map (\<lambda>i. g (pick A i) (pick B i)) [0..<?n])
        = map (\<lambda>i. (f (pick A i) (pick B i), g (pick A i) (pick B i))) [0..<?n]"
    by (simp add: zip_map_map zip_same_conv_map)
  show ?thesis
    using True assms
    by (simp add: bmap2_def einsum_def bind_result_def z list_all_iff comp_def)
next
  case False
  then obtain a b where AB: "A = Single a" "B = Single b"
    by (cases A; cases B) (auto simp: is_batch_def)
  show ?thesis
    using assms[of 0] AB
    by (simp add: bmap2_def einsum_def bind_result_def is_batch_def broadcast_len_def)
qed


subsection \<open>The claims\<close>


text \<open>
  C3: for all points \<open>a\<close> and \<open>b\<close>, \<^verbatim>\<open>squared_dist(a, b)\<close> is
  \<^verbatim>\<open>squared_norm(log(point=b, base_point=a), base_point=a)\<close>: when the supplied logarithm
  raises, so does \<^verbatim>\<open>squared_dist\<close>, with the same error; otherwise the two expressions
  are the same value (or the same error).
\<close>

theorem squared_dist_is_squared_norm_of_log:
  "squared_dist self a b =
     (case log_m self b a of
        Inl e \<Rightarrow> Inl e
      | Inr v \<Rightarrow> squared_norm self v (Some a))"
  by (simp add: squared_dist_def bind_result_def)


text \<open>
  C10: on a point set with exactly one point, \<^verbatim>\<open>diameter\<close> returns \<open>0.0\<close>, whatever the
  metric: the loop body, the only place that evaluates a distance, is never entered, so
  even a metric whose every distance raises gives \<open>0.0\<close>.
\<close>

theorem diameter_single_point:
  "diameter self [p] = Inr (Finite 0)"
  by (simp add: diameter_def)



text \<open>
  C8 (as amended): \<^verbatim>\<open>inner_product\<close> contracts \<open>tangent_vec_a\<close> against the columns of the
  metric matrix and the result against \<open>tangent_vec_b\<close>, an unbatched operand (or one with
  a batch of length one) being repeated along the batch of the others: at batch position
  \<open>i\<close> the number is \<open>sum_k (sum_j a[j] M[j][k]) b[k]\<close>. What it returns has the shape
  \<^verbatim>\<open>[...,]\<close> of its docstring: an array with one batch axis holding these numbers, except
  that, when none of the two tangent vectors and the base point has a batch axis and
  there is one number, it returns that number, without a batch axis. Whenever it returns,
  the value is the one described; and it does return on operands of matching dimension
  \<open>d\<close> with compatible batch axes.
\<close>

theorem inner_product_contracts_and_squeezes:
  assumes "metric_matrix self (map_option vectorize_vector base_point) = Inr M"
  shows "(\<forall>r. inner_product self a b base_point = Inr r \<longrightarrow>
            r = (if no_batched_vector a b base_point \<and> length (inner_product_values a M b) = 1
                 then Single (inner_product_values a M b ! 0)
                 else Batch (inner_product_values a M b))) \<and>
         (compatible (batch_len a) (batch_len M) \<and>
          compatible (broadcast_len (batch_len a) (batch_len M)) (batch_len b) \<and>
          (\<forall>i < broadcast_len (batch_len a) (batch_len M).
              length (pick a i) = d \<and> is_matrix d d (pick M i)) \<and>
          (\<forall>i < broadcast_len (broadcast_len (batch_len a) (batch_len M)) (batch_len b).
              length (pick b i) = d)
          \<longrightarrow> inner_product self a b base_point
                = Inr (if (\<not> is_batch a \<and> \<not> is_batch b \<and>
                           (case base_point of None \<Rightarrow> True | Some p \<Rightarrow> \<not> is_batch p)) \<and>
                          broadcast_len (broadcast_len (batch_len a) (batch_len M)) (batch_len b) = 1
                       then Single (sum_list (map (\<lambda>k.
                              sum_list (map (\<lambda>j. pick a 0 ! j * pick M 0 ! j ! k) [0..<d])
                                * pick b 0 ! k) [0..<d]))
                       else Batch (map (\<lambda>i. sum_list (map (\<lambda>k.
                              sum_list (map (\<lambda>j. pick a i ! j * pick M i ! j ! k) [0..<d])
                                * pick b i ! k) [0..<d]))
                            [0..<broadcast_len (broadcast_len (batch_len a) (batch_len M))
                                   (batch_len b)])))"
proof (intro conjI allI impI)
  fix r
  assume "inner_product self a b base_point = Inr r"
  with assms show "r = (if no_batched_vector a b base_point \<and> length (inner_product_values a M b) = 1
                 then Single (inner_product_values a M b ! 0)
                 else Batch (inner_product_values a M b))"
    by (rule inner_product_returned)
next
  let ?n = "broadcast_len (broadcast_len (batch_len a) (batch_len M)) (batch_len b)"
  let ?f = "\<lambda>i. sum_list (map (\<lambda>k.
                sum_list (map (\<lambda>j. pick a i ! j * pick M i ! j ! k) [0..<d]) * pick b i ! k)
              [0..<d])"
  assume H: "compatible (batch_len a) (batch_len M) \<and>
          compatible (broadcast_len (batch_len a) (batch_len M)) (batch_len b) \<and>
          (\<forall>i < broadcast_len (batch_len a) (batch_len M).
              length (pick a i) = d \<and> is_matrix d d (pick M i)) \<and>
          (\<forall>i < ?n. length (pick b i) = d)"
  then have c1: "compatible (batch_len a) (batch_len M)"
    and c2: "compatible (broadcast_len (batch_len a) (batch_len M)) (batch_len b)"
    and sa: "\<And>i. i < broadcast_len (batch_len a) (batch_len M) \<Longrightarrow>
               length (pick a i) = d \<and> is_matrix d d (pick M i)"
    and sb: "\<And>i. i < ?n \<Longrightarrow> length (pick b i) = d"
    by blast+
  have v: "inner_product_values a M b = map ?f [0..<?n]"
    using c1 c2 sa sb by (rule inner_product_values_explicit)
  have one: "map ?f [0..<?n] ! 0 = ?f 0" if "?n = 1"
    using that by simp
  have "inner_product self a b base_point
           = Inr (if no_batched_vector a b base_point \<and> length (map ?f [0..<?n]) = 1
                  then Single (map ?f [0..<?n] ! 0)
                  else Batch (map ?f [0..<?n]))"
    using inner_product_returns[OF assms c1 c2 sa sb] unfolding v by simp
  also have "\<dots> = Inr (if no_batched_vector a b base_point \<and> ?n = 1
                  then Single (?f 0) else Batch (map ?f [0..<?n]))"
    using one by (cases "?n = 1") simp_all
  finally show "inner_product self a b base_point
                = Inr (if (\<not> is_batch a \<and> \<not> is_batch b \<and>
                           (case base_point of None \<Rightarrow> True | Some p \<Rightarrow> \<not> is_batch p)) \<and>
                          ?n = 1
                       then Single (?f 0)
                       else Batch (map ?f [0..<?n]))"
    by (simp only: no_batched_vector_def)
qed

theorem inner_product_contracts_and_squeezes_witness:
  "inner_product sheared_plane (Single [1, 2]) (Batch [[3, 4], [5, 6]]) None
     = Inr (Batch [19, 29])"
proof -
  have M: "metric_matrix sheared_plane (map_option vectorize_vector None)
             = Inr (Single [[1, 2], [0, 1]])"
    by (simp add: sheared_plane_def)
  have "inner_product sheared_plane (Single [1, 2]) (Batch [[3, 4], [5, 6]]) None
      = Inr (if (\<not> is_batch (Single [1, 2 :: real]) \<and> \<not> is_batch (Batch [[3, 4], [5, 6 :: real]]) \<and>
                 (case None :: vec batched option of None \<Rightarrow> True | Some p \<Rightarrow> \<not> is_batch p)) \<and>
                broadcast_len (broadcast_len (batch_len (Single [1, 2 :: real]))
                   (batch_len (Single [[1, 2], [0, 1 :: real]])))
                   (batch_len (Batch [[3, 4], [5, 6 :: real]])) = 1
             then Single (sum_list (map (\<lambda>k.
                    sum_list (map (\<lambda>j. pick (Single [1, 2]) 0 ! j
                                       * pick (Single [[1, 2], [0, 1]]) 0 ! j ! k) [0..<2])
                      * pick (Batch [[3, 4], [5, 6]]) 0 ! k) [0..<2]))
             else Batch (map (\<lambda>i. sum_list (map (\<lambda>k.
                    sum_list (map (\<lambda>j. pick (Single [1, 2]) i ! j
                                       * pick (Single [[1, 2], [0, 1]]) i ! j ! k) [0..<2])
                      * pick (Batch [[3, 4], [5, 6]]) i ! k) [0..<2]))
                  [0..<broadcast_len (broadcast_len (batch_len (Single [1, 2 :: real]))
                         (batch_len (Single [[1, 2], [0, 1 :: real]])))
                         (batch_len (Batch [[3, 4], [5, 6 :: real]]))]))"
    by (rule inner_product_contracts_and_squeezes[OF M, of _ _ 2, THEN conjunct2, rule_format])
       (simp add: compatible_def broadcast_len_def is_matrix_def pick.simps(2) less_Suc_eq)
  also have "\<dots> = Inr (Batch [19, 29])"
    by (simp add: is_batch_def broadcast_len_def pick.simps(2) upt_0_2)
  finally show ?thesis .
qed

text \<open>
  C8 as stated (a value carrying an explicit batch axis also for fully unbatched inputs)
  fails: for the bilinear form \<open>[[1, 2], [0, 1]]\<close> of the plane and the unbatched tangent
  vectors \<open>[1, 2]\<close> and \<open>[3, 4]\<close>, with no base point, \<^verbatim>\<open>inner_product\<close> returns the number
  \<open>19\<close>, which has no batch axis.
\<close>

theorem inner_product_unbatched_counterexample:
  "inner_product sheared_plane (Single [1, 2]) (Single [3, 4]) None = Inr (Single 19)
   \<and> \<not> is_batch (Single (19 :: real))"
  by (simp add: inner_product_def inner_product_body_def sheared_plane_def bind_result_def
        vectorize_vector_def to_ndarray_lead_def to_ndarray_2_axis1_def einsum_def
        ok_j_jk_def ok_k_k_def core_j_jk_k_def core_k_k_def ncols_def
        is_matrix_def compatible_def broadcast_len_def stretch_def upt_0_2
        adapt_result_def no_batched_vector_def is_batch_def)



text \<open>
  C4: for a sequence of \<open>n\<close> points whose distances \<open>d i j = dist(p_i, p_j)\<close> are symmetric
  with zero self-distance, as geodesic distances are, \<^verbatim>\<open>dist_pairwise\<close> iterates \<open>i\<close> from
  \<open>0\<close> to \<open>n - 1\<close> computing the distance from point \<open>i\<close> to each of the points
  \<open>j = i..n-1\<close> (the zero self-distance included), which \<^verbatim>\<open>gs.array\<close> turns into a flat
  sequence of \<open>n(n+1)/2\<close> values, and expands it into the full \<open>n \<times> n\<close> matrix \<open>D\<close> with
  \<open>D[i][j] = dist(p_i, p_j)\<close> for all \<open>i, j\<close>, which is symmetric and has \<open>D[i][i] = 0\<close>.
\<close>

theorem dist_pairwise_symmetric_matrix:
  assumes dist: "\<And>i j. i < length point \<Longrightarrow> j < length point \<Longrightarrow>
             dist_m self (Single (point ! i)) (Single (point ! j)) = Inr (Single (d i j))"
    and sym: "\<And>i j. i < length point \<Longrightarrow> j < length point \<Longrightarrow> d i j = d j i"
    and zero: "\<And>i. i < length point \<Longrightarrow> d i i = Finite 0"
  shows "pairwise_loop self point
           = Inr (concat (upper_rows (\<lambda>i j. Single (d i j)) (length point))) \<and>
         gs_array (concat (upper_rows (\<lambda>i j. Single (d i j)) (length point)))
           = Inr (Single (concat (upper_rows d (length point)))) \<and>
         length (concat (upper_rows d (length point)))
           = length point * (length point + 1) div 2 \<and>
         (\<exists>D. dist_pairwise self point = Inr (Single D) \<and>
              length D = length point \<and>
              (\<forall>i < length point. length (D ! i) = length point \<and> D ! i ! i = Finite 0) \<and>
              (\<forall>i < length point. \<forall>j < length point.
                 D ! i ! j = d i j \<and> D ! i ! j = D ! j ! i \<and>
                 dist_m self (Single (point ! i)) (Single (point ! j)) = Inr (Single (D ! i ! j))))"
proof -
  let ?n = "length point"
  have loop: "pairwise_loop self point = Inr (concat (upper_rows (\<lambda>i j. Single (d i j)) ?n))"
    by (rule pairwise_loop_eq) (use dist in simp)
  have dp: "dist_pairwise self point = Inr (Single (mirrored d ?n))"
    by (simp add: dist_pairwise_def loop bind_result_def gs_array_upper_rows from_vector_upper_rows)
  have entry: "mirrored d ?n ! i ! j = d i j" if "i < ?n" "j < ?n" for i j
  proof (cases "i \<le> j")
    case True
    then show ?thesis using that by (simp add: mirrored_def min_def max_def)
  next
    case False
    then have "mirrored d ?n ! i ! j = d j i" using that by (simp add: mirrored_def min_def max_def)
    then show ?thesis using sym[OF that] by simp
  qed
  have len: "length (mirrored d ?n) = ?n" "\<And>i. i < ?n \<Longrightarrow> length (mirrored d ?n ! i) = ?n"
    by (simp_all add: mirrored_def)
  have all: "mirrored d ?n ! i ! j = d i j \<and> mirrored d ?n ! i ! j = mirrored d ?n ! j ! i \<and>
             dist_m self (Single (point ! i)) (Single (point ! j)) = Inr (Single (mirrored d ?n ! i ! j))"
    if "i < ?n" "j < ?n" for i j
    using entry[OF that] entry[OF that(2,1)] sym[OF that] dist[OF that] by simp
  have diag: "length (mirrored d ?n ! i) = ?n \<and> mirrored d ?n ! i ! i = Finite 0" if "i < ?n" for i
    using len(2)[OF that] entry[OF that that] zero[OF that] by simp
  have "\<exists>D. dist_pairwise self point = Inr (Single D) \<and>
              length D = ?n \<and>
              (\<forall>i < ?n. length (D ! i) = ?n \<and> D ! i ! i = Finite 0) \<and>
              (\<forall>i < ?n. \<forall>j < ?n.
                 D ! i ! j = d i j \<and> D ! i ! j = D ! j ! i \<and>
                 dist_m self (Single (point ! i)) (Single (point ! j)) = Inr (Single (D ! i ! j)))"
    using dp len(1) diag all by blast
  then show ?thesis
    using loop by (simp add: gs_array_upper_rows length_concat_upper_rows triu_offset_full)
qed

theorem dist_pairwise_symmetric_matrix_witness:
  "\<exists>D. dist_pairwise (euclidean_metric 1) [[0], [1]] = Inr (Single D)
       \<and> D ! 0 ! 0 = Finite 0 \<and> D ! 0 ! 1 = Finite 1 \<and> D ! 1 ! 0 = Finite 1 \<and> D ! 1 ! 1 = Finite 0"
proof -
  let ?d = "\<lambda>i j :: nat. Finite (if i = j then 0 else 1)"
  have h: "dist_m (euclidean_metric 1) (Single ([[0], [1]] ! i)) (Single ([[0], [1]] ! j))
             = Inr (Single (?d i j))"
    if "i < length [[0::real], [1]]" "j < length [[0::real], [1]]" for i j
  proof -
    from that have "(i = 0 \<or> i = 1) \<and> (j = 0 \<or> j = 1)" by auto
    then show ?thesis by (auto simp: dist_euclid_1)
  qed
  have s: "?d i j = ?d j i" for i j by auto
  have z: "?d i i = Finite 0" for i by simp
  from dist_pairwise_symmetric_matrix[of "[[0], [1]]" "euclidean_metric 1" ?d, OF h s z]
  obtain D where D: "dist_pairwise (euclidean_metric 1) [[0], [1]] = Inr (Single D)"
    and e: "\<forall>i < length [[0::real], [1]]. \<forall>j < length [[0::real], [1]]. D ! i ! j = ?d i j"
    by blast
  from e have "D ! 0 ! 0 = Finite 0 \<and> D ! 0 ! 1 = Finite 1 \<and> D ! 1 ! 0 = Finite 1 \<and> D ! 1 ! 1 = Finite 0"
    by simp
  with D show ?thesis by blast
qed




text \<open>
  C1: \<^verbatim>\<open>Hamiltonian_equation\<close> is claimed to return \<open>(\<partial>H/\<partial>momentum, -\<partial>H/\<partial>position)\<close>. The
  source unpacks the pair (value, gradient) of \<^verbatim>\<open>value_and_grad\<close> into \<^verbatim>\<open>H_q, H_p\<close>, so
  what it returns is (gradient, minus value): on the line with cometric matrix \<open>[[1]]\<close>,
  at position \<open>[0]\<close> and momentum \<open>[1]\<close>, where \<open>H = 1/2\<close>, \<open>\<partial>H/\<partial>position = [0]\<close> and
  \<open>\<partial>H/\<partial>momentum = [1]\<close>, the result is \<open>(([0], [1]), -1/2)\<close> and not \<open>([1], [0])\<close>.
\<close>

theorem Hamiltonian_equation_returns_gradient_and_negated_value:
  "Hamiltonian_equation differentiating_backend unit_cometric (Single [0]) (Single [1])
     = Inr (Tuple [Tuple [Vectors (Single [0]), Vectors (Single [1])],
                   Scalars (Single (- (1 / 2)))])
   \<and> hamiltonian unit_cometric (Single [0], Single [1]) = Inr (Single (1 / 2))
   \<and> grad_engine differentiating_backend (hamiltonian unit_cometric) (Single [0], Single [1])
     = Inr (Single [0], Single [1])"
  by (simp add: Hamiltonian_equation_unfolded hamiltonian_unit_cometric
        differentiating_backend_def central_difference_engine_def central_gradient_def
        central_partial_def shift_def bind_result_def)



text \<open>
  C5: \<^verbatim>\<open>RiemannianCometric.exp\<close> is claimed to return, for every cotangent vector and base
  point, the position of the final state of the trajectory. It forms the initial state
  \<open>(base_point, cotangent_vec)\<close> and hands \<^verbatim>\<open>Hamiltonian_equation\<close>, that state, \<open>n_steps\<close>
  (10 when omitted) and the scheme (\<^verbatim>\<open>'euler'\<close> when omitted) to the integrator; but the
  first step of the integration multiplies the velocity of the position by the step
  length, and what \<^verbatim>\<open>Hamiltonian_equation\<close> returns in that place is the tuple of the two
  gradients (C1), which Python does not multiply by a float. On the line with cometric
  matrix \<open>[[1]]\<close>, base point \<open>[0]\<close> and cotangent vector \<open>[1]\<close>, with the defaults, \<^verbatim>\<open>exp\<close>
  raises a \<^verbatim>\<open>TypeError\<close>; and with the default or any positive number of steps, \<^verbatim>\<open>exp\<close>
  returns a position on no input at all: it raises.
\<close>

theorem exp_raises_instead_of_returning_final_position:
  "exp_m differentiating_backend unit_cometric (Single [1]) (Single [0]) None None None
     = Inl (TypeError ''can't multiply sequence by non-int of type float'')
   \<and> (\<exists>e. exp_m gs self cotangent_vec base_point None step point_type = Inl e)
   \<and> (\<exists>e. exp_m gs self cotangent_vec base_point (Some (Suc n)) step point_type = Inl e)"
proof -
  let ?force = "Hamiltonian_equation differentiating_backend unit_cometric"
  let ?err = "TypeError ''can't multiply sequence by non-int of type float''"
  have H: "?force (Single [0]) (Single [1])
             = Inr (Tuple [Tuple [Vectors (Single [0]), Vectors (Single [1])],
                           Scalars (Single (- (1 / 2)))])"
    by (simp add: Hamiltonian_equation_unfolded hamiltonian_unit_cometric
        differentiating_backend_def central_difference_engine_def central_gradient_def
        central_partial_def shift_def bind_result_def)
  have stp: "euler_step ?force (Single [0], Single [1]) (1 / real 10) = Inl ?err"
    by (simp add: euler_step_Hamiltonian_equation H)
  have "trajectory (\<lambda>state. euler_step ?force state (1 / real 10)) (Suc 9)
          (Single [0], Single [1]) = Inl ?err"
    using stp by (rule trajectory_failing_step)
  moreover have "(10 :: nat) = Suc 9" by simp
  ultimately have "trajectory (\<lambda>state. euler_step ?force state (1 / real 10)) 10
          (Single [0], Single [1]) = Inl ?err"
    by (simp only:)
  then have "integrate ?force (Single [0], Single [1]) 10 ''euler'' = Inl ?err"
    by (simp add: integrate_def bind_result_def)
  then have "exp_m differentiating_backend unit_cometric (Single [1]) (Single [0]) None None None
     = Inl ?err"
    by (simp add: exp_m_unfolded)
  then show ?thesis using exp_m_raises by blast
qed


text \<open>
  C7 (as amended): for every \<open>n_points\<close>, \<^verbatim>\<open>test_not_belongs\<close> builds one all-ones array
  of shape \<open>n_batch + shape'\<close>, where \<open>shape'\<close> is the declared point shape with the length
  of its first axis increased by one (the rank is the declared one, no axis is added)
  and \<open>n_batch\<close> is \<open>[n_points]\<close>, or empty when \<open>n_points\<close> is zero; and it asserts that the
  membership predicate on this array equals \<open>n_points\<close> times false: when the predicate
  gives one boolean per point, the check passes exactly when all of them are false.
\<close>

theorem test_not_belongs_lengthens_first_axis:
  assumes "space_shape self = first # rest"
  shows "not_belongs_point self n_points
           = Inr (gs_ones ((if n_points = 0 then [] else [n_points]) @ (first + 1) # rest))
       \<and> shape (gs_ones ((if n_points = 0 then [] else [n_points]) @ (first + 1) # rest))
           = (if n_points = 0 then [] else [n_points]) @ (first + 1) # rest
       \<and> length ((first + 1) # rest) = length (first # rest)
       \<and> list_all (\<lambda>x. x = 1)
            (entries_of (gs_ones ((if n_points = 0 then [] else [n_points]) @ (first + 1) # rest)))
       \<and> test_not_belongs self n_points atol
           = assertAllEqual
               (belongs self
                  (gs_ones ((if n_points = 0 then [] else [n_points]) @ (first + 1) # rest)))
               (replicate n_points False)
       \<and> (\<forall>bs. belongs self
                  (gs_ones ((if n_points = 0 then [] else [n_points]) @ (first + 1) # rest))
                 = Batch bs \<and> length bs = n_points
              \<longrightarrow> (test_not_belongs self n_points atol = Inr ()) = list_all Not bs)"
proof -
  let ?p = "gs_ones ((if n_points = 0 then [] else [n_points]) @ (first + 1) # rest)"
  have p: "not_belongs_point self n_points = Inr ?p"
    using assms by (simp add: not_belongs_point_def)
  have t: "test_not_belongs self n_points atol
             = assertAllEqual (belongs self ?p) (replicate n_points False)"
    by (simp add: test_not_belongs_def p bind_result_def test_belongs_def gs_zeros_bool_def)
  have "(test_not_belongs self n_points atol = Inr ()) = list_all Not bs"
    if "belongs self ?p = Batch bs" "length bs = n_points" for bs
  proof -
    have "(bs = replicate n_points False) = list_all Not bs"
      using that(2) by (rule all_False_iff)
    then show ?thesis
      using that by (simp add: t assertAllEqual_same_length)
  qed
  then show ?thesis
    using p t assms by (simp add: gs_ones_def list_all_iff)
qed

theorem test_not_belongs_lengthens_first_axis_witness:
  "not_belongs_point vectors_of_dim_3 2 = Inr (gs_ones [2, 4])
   \<and> test_not_belongs vectors_of_dim_3 2 0 = Inr ()"
proof -
  have s: "space_shape vectors_of_dim_3 = 3 # []" by (simp add: vectors_of_dim_3_def)
  have b: "belongs vectors_of_dim_3 (gs_ones [2, 4]) = Batch [False, False]"
    by (simp add: vectors_of_dim_3_def gs_ones_def numeral_2_eq_2)
  note T = test_not_belongs_lengthens_first_axis[OF s, of 2 0]
  from T have p: "not_belongs_point vectors_of_dim_3 2 = Inr (gs_ones [2, 4])"
    by simp
  from T have "belongs vectors_of_dim_3 (gs_ones [2, 4]) = Batch [False, False]
                 \<and> length [False, False] = 2
               \<longrightarrow> (test_not_belongs vectors_of_dim_3 2 0 = Inr ()) = list_all Not [False, False]"
    by (elim conjE allE[of _ "[False, False]"]) simp
  then have "test_not_belongs vectors_of_dim_3 2 0 = Inr ()"
    using b by simp
  then show ?thesis using p by simp
qed


text \<open>
  C7 as stated (one extra trailing axis beyond the declared point shape) fails: for the
  declared shape \<open>[3]\<close> and two points the array has shape \<open>[2, 4]\<close>, of the rank of a batch
  of declared points and not one more.
\<close>

theorem test_not_belongs_extra_axis_counterexample:
  "not_belongs_point vectors_of_dim_3 2 = Inr (gs_ones [2, 4])
   \<and> shape (gs_ones [2, 4]) = [2, 4]
   \<and> space_shape vectors_of_dim_3 = [3]
   \<and> length (shape (gs_ones [2, 4])) = length ([2] @ space_shape vectors_of_dim_3)
   \<and> length (shape (gs_ones [2, 4])) \<noteq> length ([2] @ space_shape vectors_of_dim_3) + 1"
  by (simp add: not_belongs_point_def vectors_of_dim_3_def gs_ones_def)



text \<open>
  C6 (as amended): \<^verbatim>\<open>grad(y_pred, y_true, metric)\<close> computes
  \<open>tangent_vec = metric.log(base_point=y_pred, point=y_true)\<close>, scales it by \<open>-2\<close>, and
  contracts the result against the transpose of \<open>metric.metric_matrix(y_pred)\<close> (axes
  \<open>(0, 2, 1)\<close> when the matrix carries a batch axis, \<open>(1, 0)\<close> otherwise) by \<open>i,ij->i\<close>
  per batch element: entry \<open>k\<close> is \<open>sum_j (-2 tangent_vec[k]) M[j][k]\<close>. The array returned
  has the batch axis of \<open>tangent_vec\<close> broadcast against that of the matrix: it is shaped
  like \<open>tangent_vec\<close> when the matrix is unbatched or has the batch of \<open>tangent_vec\<close>, and
  then like \<open>y_pred\<close> when the logarithm returned a tangent vector shaped like \<open>y_pred\<close>.
\<close>

theorem grad_contracts_scaled_log:
  assumes lg: "log_m metric y_true y_pred = Inr tangent_vec"
    and mm: "metric_matrix metric (Some y_pred) = Inr M"
    and compat: "compatible (batch_len tangent_vec) (batch_len M)"
    and shapes: "\<And>i. i < broadcast_len (batch_len tangent_vec) (batch_len M) \<Longrightarrow>
                   length (pick tangent_vec i) = d \<and> is_matrix d d (pick M i)"
  shows "grad y_pred y_true metric = Inr (grad_rows tangent_vec M)
       \<and> gs_transpose M (if is_batch M then [0, 2, 1] else [1, 0])
           = Inr (map_batched transpose_m M)
       \<and> (\<forall>i k. i < broadcast_len (batch_len tangent_vec) (batch_len M) \<and> k < d \<longrightarrow>
             core_i_ij_i (map (\<lambda>x. - 2 * x) (pick tangent_vec i)) (transpose_m (pick M i)) ! k
               = sum_list (map (\<lambda>j. (- 2 * pick tangent_vec i ! k) * pick M i ! j ! k) [0..<d]))
       \<and> ((is_batch M \<longrightarrow> is_batch tangent_vec \<and> batch_len M = batch_len tangent_vec)
            \<longrightarrow> same_shape (grad_rows tangent_vec M) tangent_vec)
       \<and> ((is_batch M \<longrightarrow> is_batch tangent_vec \<and> batch_len M = batch_len tangent_vec)
            \<and> same_shape tangent_vec y_pred
            \<longrightarrow> same_shape (grad_rows tangent_vec M) y_pred)"
proof -
  have ok: "ok_i_ij (map (\<lambda>x. - 2 * x) (pick tangent_vec i)) (transpose_m (pick M i))"
    if "i < broadcast_len (batch_len tangent_vec) (batch_len M)" for i
  proof -
    have sq: "is_matrix d d (transpose_m (pick M i))"
      using shapes[OF that] by (simp add: transpose_m_square)
    show ?thesis
      using shapes[OF that] sq by (simp add: ok_i_ij_square)
  qed
  have g: "grad y_pred y_true metric = Inr (grad_rows tangent_vec M)"
    unfolding grad_unfolded[OF lg mm] grad_rows_def
    by (rule einsum_total[OF compat]) (rule ok)
  have entry: "core_i_ij_i (map (\<lambda>x. - 2 * x) (pick tangent_vec i)) (transpose_m (pick M i)) ! k
               = sum_list (map (\<lambda>j. (- 2 * pick tangent_vec i ! k) * pick M i ! j ! k) [0..<d])"
    if "i < broadcast_len (batch_len tangent_vec) (batch_len M)" "k < d" for i k
    using core_i_ij_i_entry[of k "pick tangent_vec i" "pick M i"] shapes[OF that(1)] that(2)
    by simp
  have sh: "same_shape (grad_rows tangent_vec M) tangent_vec"
    if "is_batch M \<longrightarrow> is_batch tangent_vec \<and> batch_len M = batch_len tangent_vec"
    unfolding grad_rows_def
  proof (rule same_shape_bmap2)
    fix i
    assume "i < broadcast_len (batch_len tangent_vec) (batch_len M)"
    then have "length (pick tangent_vec i) = d" and "is_matrix d d (pick M i)"
      using shapes by simp_all
    then show "length (core_i_ij_i (map (\<lambda>x. - 2 * x) (pick tangent_vec i))
                         (transpose_m (pick M i))) = length (pick tangent_vec i)"
      by (simp add: length_core_i_ij_i_square transpose_m_square)
  qed (rule that)
  show ?thesis
    using g gs_transpose_axes[of M] entry sh same_shape_trans[of "grad_rows tangent_vec M" tangent_vec y_pred]
    by blast
qed


theorem grad_contracts_scaled_log_witness:
  "grad (Batch [[0, 0], [1, 1]]) (Batch [[1, 2], [3, 4]]) (euclidean_metric 2)
     = Inr (Batch [[- 2, - 4], [- 4, - 6]])
   \<and> same_shape (Batch [[- 2, - 4], [- 4, - 6]]) (Batch [[0, 0], [1, 1]])"
proof -
  have lg: "log_m (euclidean_metric 2) (Batch [[1, 2], [3, 4]]) (Batch [[0, 0], [1, 1]])
              = Inr (Batch [[1, 2], [2, 3]])"
    by (simp add: euclidean_metric_def vector_difference_batch2)
  have mm: "metric_matrix (euclidean_metric 2) (Some (Batch [[0, 0], [1, 1]]))
              = Inr (Single (identity_matrix 2))"
    by (simp add: euclidean_metric_def)
  have compat: "compatible (batch_len (Batch [[1, 2], [2, 3::real]]))
                  (batch_len (Single (identity_matrix 2)))"
    by (simp add: compatible_def)
  have shapes: "length (pick (Batch [[1, 2], [2, 3::real]]) i) = 2
                  \<and> is_matrix 2 2 (pick (Single (identity_matrix 2)) i)"
    if "i < broadcast_len (batch_len (Batch [[1, 2], [2, 3::real]]))
              (batch_len (Single (identity_matrix 2)))" for i
  proof -
    from that have "i = 0 \<or> i = 1" by (auto simp: broadcast_len_def)
    then show ?thesis
      by (auto simp: pick.simps(2) identity_matrix_2 is_matrix_def)
  qed
  have "grad (Batch [[0, 0], [1, 1]]) (Batch [[1, 2], [3, 4]]) (euclidean_metric 2)
          = Inr (grad_rows (Batch [[1, 2], [2, 3]]) (Single (identity_matrix 2)))"
    using grad_contracts_scaled_log[OF lg mm compat shapes] by simp
  then show ?thesis
    by (simp add: grad_rows_identity_2 same_shape_def)
qed


text \<open>
  C6 as stated (an array shaped like \<open>y_pred\<close> for every \<open>y_pred\<close> and \<open>y_true\<close>) fails when
  \<open>y_true\<close> is a batch and \<open>y_pred\<close> a single point: with the Euclidean metric of the
  line, \<open>y_pred = [0]\<close> and \<open>y_true = [[1], [2]]\<close> give the array \<open>[[-2], [-4]]\<close> of shape
  \<open>[2, 1]\<close>, while \<open>y_pred\<close> has shape \<open>[1]\<close>.
\<close>

theorem grad_shape_counterexample:
  "grad (Single [0]) (Batch [[1], [2]]) (euclidean_metric 1) = Inr (Batch [[- 2], [- 4]])
   \<and> \<not> same_shape (Batch [[- 2], [- 4]]) (Single [0])"
  by (simp add: grad_def euclidean_metric_def vector_difference_def einsum_def bind_result_def
        gs_transpose_def is_batch_def transpose_m_def identity_matrix_def ncols_def
        ok_i_ij_def core_i_ij_i_def is_matrix_def same_shape_def compatible_def
        broadcast_len_def stretch_def)



text \<open>
  C2: at a base point where the inverse of the metric matrix (the cometric matrix \<open>C\<close>) and
  the derivative \<open>D\<close> of the metric matrix are defined, \<^verbatim>\<open>christoffels\<close> is \<open>0.5\<close> times the
  sum of three contractions of \<open>C\<close> against \<open>D\<close>: \<open>term_1\<close> with the derivative indexed
  \<open>(m, k, l)\<close> and the output \<open>(i, k, l)\<close>, \<open>term_2\<close> with the derivative indexed \<open>(m, l, k)\<close>
  and the output \<open>(i, l, k)\<close>, and \<open>term_3\<close> the negated contraction with the derivative
  indexed \<open>(k, l, m)\<close> and the output \<open>(i, k, l)\<close>; the negative sign of \<open>term_3\<close> is inside
  the sum. Entry by entry, the array at position \<open>[i][k][l]\<close> is
  \<open>1/2 (sum_m C[i][m] D[m][k][l] + sum_m C[i][m] D[m][k][l] - sum_m C[i][m] D[k][l][m])\<close>:
  \<open>term_2\<close>, whose output layout follows its input layout, is the same array as \<open>term_1\<close>.
\<close>

theorem christoffels_three_contractions:
  assumes inv: "inner_product_inverse_matrix gs self (Some base_point) = Inr C"
    and der: "inner_product_derivative_matrix gs self (Some base_point) = Inr D"
    and compat: "compatible (batch_len C) (batch_len D)"
    and shapes: "\<And>n. n < broadcast_len (batch_len C) (batch_len D) \<Longrightarrow>
                   is_matrix d d (pick C n) \<and> is_tensor3 d d d (pick D n)"
  shows "christoffels gs self base_point = Inr (bmap2 christoffels_value C D)
       \<and> (\<forall>n < broadcast_len (batch_len C) (batch_len D).
            christoffels_value (pick C n) (pick D n)
              = tabulate3 d (\<lambda>i k l.
                  1 / 2 * (sum_list (map (\<lambda>m. pick C n ! i ! m * pick D n ! m ! k ! l) [0..<d])
                         + sum_list (map (\<lambda>m. pick C n ! i ! m * pick D n ! m ! k ! l) [0..<d])
                         + - sum_list (map (\<lambda>m. pick C n ! i ! m * pick D n ! k ! l ! m) [0..<d]))))"
proof -
  let ?n = "broadcast_len (batch_len C) (batch_len D)"
  have sC: "is_matrix d d (pick C n)" and sD: "is_tensor3 d d d (pick D n)" if "n < ?n" for n
    using shapes[OF that] by simp_all
  have t1: "einsum ok_im_mkl core_im_mkl_ikl C D = Inr (bmap2 core_im_mkl_ikl C D)"
    by (rule einsum_total[OF compat]) (rule contractions_tabulate3(4)[OF sC sD])
  have t2: "einsum ok_im_mlk core_im_mlk_ilk C D = Inr (bmap2 core_im_mlk_ilk C D)"
    by (rule einsum_total[OF compat]) (rule contractions_tabulate3(5)[OF sC sD])
  have t3: "einsum ok_im_klm core_im_klm_ikl C D = Inr (bmap2 core_im_klm_ikl C D)"
    by (rule einsum_total[OF compat]) (rule contractions_tabulate3(6)[OF sC sD])
  have s12: "gs_add (bmap2 core_im_mkl_ikl C D) (bmap2 core_im_mlk_ilk C D)
      = Inr (bmap2 (\<lambda>c d. add3 (core_im_mkl_ikl c d) (core_im_mlk_ilk c d)) C D)"
    unfolding gs_add_def
    by (rule einsum_bmap2_same)
       (simp add: contractions_tabulate3(1,2)[OF sC sD] same_shape3_tabulate3)
  have s123: "gs_add (bmap2 (\<lambda>c d. add3 (core_im_mkl_ikl c d) (core_im_mlk_ilk c d)) C D)
                (bmap2 (\<lambda>c d. neg3 (core_im_klm_ikl c d)) C D)
      = Inr (bmap2 (\<lambda>c d. add3 (add3 (core_im_mkl_ikl c d) (core_im_mlk_ilk c d))
                              (neg3 (core_im_klm_ikl c d))) C D)"
    unfolding gs_add_def
    by (rule einsum_bmap2_same)
       (simp add: contractions_tabulate3(1-3)[OF sC sD] add3_tabulate3 neg3_tabulate3
          same_shape3_tabulate3)
  have val: "christoffels gs self base_point = Inr (bmap2 christoffels_value C D)"
    by (simp add: christoffels_def inv der bind_result_def t1 t2 t3 map_batched_bmap2 s12 s123
          christoffels_value_def[abs_def])
  show ?thesis
    using val christoffels_value_entries[OF sC sD] by simp
qed


theorem christoffels_three_contractions_witness:
  "christoffels differentiating_backend warped_line (Single [1]) = Inr (Single [[[3 / 4]]])"
proof -
  have inv: "inner_product_inverse_matrix differentiating_backend warped_line (Some (Single [1]))
               = Inr (Single [[1 / 4]])"
    by (simp add: inner_product_inverse_matrix_def warped_line_def differentiating_backend_def bind_result_def
          linalg_inv_line_def inv_1x1_def)
  have der: "inner_product_derivative_matrix differentiating_backend warped_line (Some (Single [1]))
               = Inr (Single [[[6]]])"
    by (simp add: inner_product_derivative_matrix_def warped_line_def differentiating_backend_def bind_result_def
          central_jacobian_def shift_def)
  have compat: "compatible (batch_len (Single [[1 / 4 :: real]])) (batch_len (Single [[[6 :: real]]]))"
    by (simp add: compatible_def)
  have shapes: "is_matrix 1 1 (pick (Single [[1 / 4 :: real]]) n)
                  \<and> is_tensor3 1 1 1 (pick (Single [[[6 :: real]]]) n)"
    if "n < broadcast_len (batch_len (Single [[1 / 4 :: real]])) (batch_len (Single [[[6 :: real]]]))"
    for n
    by (simp add: is_matrix_def is_tensor3_def)
  have "christoffels differentiating_backend warped_line (Single [1])
          = Inr (bmap2 christoffels_value (Single [[1 / 4]]) (Single [[[6]]]))"
    using christoffels_three_contractions[OF inv der compat shapes] by simp
  moreover have "bmap2 christoffels_value (Single [[1 / 4]]) (Single [[[6]]]) = Single [[[3 / 4]]]"
    by (simp add: bmap2_def is_batch_def christoffels_value_def core_im_mkl_ikl_def
          core_im_mlk_ilk_def core_im_klm_ikl_def add3_def neg3_def scale3_def dim1_def dim2_def
          ncols_def broadcast_len_def stretch_def)
  ultimately show ?thesis by simp
qed


end
